theory Spec2Isabelle
  imports Complex_Main
begin

section \<open>The Quickstart notebook: data, model, training loop, persistence\<close>

text \<open>
  The notebook \<^verbatim>\<open>00_Quickstart.ipynb\<close> loads FashionMNIST, wraps it in data loaders
  of batch size 64, defines the class \<^verbatim>\<open>NeuralNetwork\<close>, trains it for five epochs,
  saves its state dictionary, loads it into a new network and predicts one sample.

  Conventions of the embedding.
  \<^item> A float tensor is a shape and its row-major data. A floating-point value is a real
    number within the range of its format, an infinity or NaN: overflow, the infinities
    and NaN follow IEEE 754; rounding within the range is not modelled.
  \<^item> A Python exception is a value of \<open>error\<close>. Functions that mutate the model or
    print return the state they leave behind together with the exception, if any.
  \<^item> \<^verbatim>\<open>X.to(device)\<close> and \<^verbatim>\<open>model.to(device)\<close> return their tensor or module
    unchanged and are not written.
  \<^item> \<^verbatim>\<open>print\<close> appends a structured line to the console.
\<close>

subsection \<open>Tensors and exceptions\<close>

datatype error =
  RuntimeError | IndexError | ValueError | ZeroDivisionError | FileNotFoundError

text \<open>
  Floating-point values. The tensors of the notebook are float32; the numbers Python
  handles after \<^verbatim>\<open>.item()\<close> are doubles. Every operation takes the largest finite value
  \<open>M\<close> of its format: a result beyond \<open>M\<close> is an infinity. The sum of opposite infinities,
  the product of zero and an infinity and the logarithm of a negative number are NaN, and
  NaN spreads through every operation. Rounding within the range, signed zeros and
  subnormal numbers are not modelled.
\<close>

datatype float = Finite real | PInf | NInf | NaN

definition float32_max :: real where
  "float32_max = (2 - 1 / 2 ^ 23) * 2 ^ 127"

definition float64_max :: real where
  "float64_max = (2 - 1 / 2 ^ 52) * 2 ^ 1023"

definition to_range :: "real \<Rightarrow> real \<Rightarrow> float" where
  "to_range M x = (if M < x then PInf else if x < - M then NInf else Finite x)"

fun fneg :: "float \<Rightarrow> float" where
  "fneg (Finite x) = Finite (- x)"
| "fneg PInf = NInf"
| "fneg NInf = PInf"
| "fneg NaN = NaN"

fun fadd :: "real \<Rightarrow> float \<Rightarrow> float \<Rightarrow> float" where
  "fadd M (Finite x) (Finite y) = to_range M (x + y)"
| "fadd M NaN b = NaN"
| "fadd M a NaN = NaN"
| "fadd M PInf NInf = NaN"
| "fadd M NInf PInf = NaN"
| "fadd M PInf b = PInf"
| "fadd M a PInf = PInf"
| "fadd M NInf b = NInf"
| "fadd M a NInf = NInf"

definition fsub :: "real \<Rightarrow> float \<Rightarrow> float \<Rightarrow> float" where
  "fsub M a b = fadd M a (fneg b)"

fun fsign :: "float \<Rightarrow> real" where
  "fsign (Finite x) = sgn x"
| "fsign PInf = 1"
| "fsign NInf = - 1"
| "fsign NaN = 0"

fun fmul :: "real \<Rightarrow> float \<Rightarrow> float \<Rightarrow> float" where
  "fmul M (Finite x) (Finite y) = to_range M (x * y)"
| "fmul M NaN b = NaN"
| "fmul M a NaN = NaN"
| "fmul M a b =
     (if fsign a * fsign b = 0 then NaN else if 0 < fsign a * fsign b then PInf else NInf)"

text \<open>Division by a count, as the mean of a batch and the averages of \<^verbatim>\<open>test\<close> need it.\<close>

fun fdiv_count :: "real \<Rightarrow> float \<Rightarrow> nat \<Rightarrow> float" where
  "fdiv_count M (Finite x) n =
     (if n = 0 then (if x = 0 then NaN else if 0 < x then PInf else NInf)
      else to_range M (x / real n))"
| "fdiv_count M a n = a"

fun fexp :: "real \<Rightarrow> float \<Rightarrow> float" where
  "fexp M (Finite x) = to_range M (exp x)"
| "fexp M PInf = PInf"
| "fexp M NInf = Finite 0"
| "fexp M NaN = NaN"

fun flog :: "float \<Rightarrow> float" where
  "flog (Finite x) = (if x < 0 then NaN else if x = 0 then NInf else Finite (ln x))"
| "flog PInf = PInf"
| "flog NInf = NaN"
| "flog NaN = NaN"

text \<open>Comparison is false whenever NaN takes part; the larger of two values is NaN then.\<close>

fun flt :: "float \<Rightarrow> float \<Rightarrow> bool" where
  "flt (Finite x) (Finite y) = (x < y)"
| "flt NaN b = False"
| "flt a NaN = False"
| "flt a NInf = False"
| "flt PInf b = False"
| "flt NInf b = True"
| "flt a PInf = True"

definition fmax2 :: "float \<Rightarrow> float \<Rightarrow> float" where
  "fmax2 a b = (if a = NaN \<or> b = NaN then NaN else if flt a b then b else a)"

definition fsum :: "real \<Rightarrow> float list \<Rightarrow> float" where
  "fsum M xs = foldl (fadd M) (Finite 0) xs"

datatype tensor = Tensor (shape: "nat list") (data: "float list")

definition zeros_like :: "tensor \<Rightarrow> tensor" where
  "zeros_like t = Tensor (shape t) (replicate (length (data t)) (Finite 0))"

text \<open>Row \<open>i\<close> of a matrix with \<open>k\<close> columns stored row-major; \<open>rows n k d\<close> are its \<open>n\<close> rows.\<close>

definition rows :: "nat \<Rightarrow> nat \<Rightarrow> float list \<Rightarrow> float list list" where
  "rows n k d = map (\<lambda>i. take k (drop (i * k) d)) [0..<n]"

definition dot :: "float list \<Rightarrow> float list \<Rightarrow> float" where
  "dot u v = fsum float32_max (map2 (fmul float32_max) u v)"

subsection \<open>Datasets and data loaders\<close>

text \<open>
  A sample is an image tensor (shape \<open>[1, 28, 28]\<close> after \<^verbatim>\<open>ToTensor()\<close>) and its class
  label. \<^verbatim>\<open>DataLoader(dataset, batch_size=batch_size)\<close> keeps the library's defaults:
  no shuffling and \<^verbatim>\<open>drop_last=False\<close>, so iteration yields the samples in order, in
  groups of \<open>batch_size\<close>, the last group holding what is left. The library's constructor
  rejects a batch size of zero; \<open>batches_of\<close> yields no batch for it.
\<close>

type_synonym sample = "tensor \<times> nat"

record DataLoader =
  dataset :: "sample list"
  loader_batch_size :: nat

definition batch_size :: nat where
  "batch_size = 64"

function batches_of :: "nat \<Rightarrow> 'a list \<Rightarrow> 'a list list" where
  "batches_of n xs = (if n = 0 \<or> xs = [] then [] else take n xs # batches_of n (drop n xs))"
  by pat_completeness auto
termination
  by (relation "measure (\<lambda>(n, xs). length xs)") auto

definition batches :: "DataLoader \<Rightarrow> sample list list" where
  "batches dl = batches_of (loader_batch_size dl) (dataset dl)"

text \<open>\<^verbatim>\<open>len(dataloader)\<close>: the library computes it from the sizes, rounding up.\<close>

definition len_dataloader :: "DataLoader \<Rightarrow> nat" where
  "len_dataloader dl =
     (length (dataset dl) + loader_batch_size dl - 1) div loader_batch_size dl"

text \<open>
  The default collate function stacks the images of a group into one tensor with a new
  leading dimension and gathers the labels. Images of different shapes cannot be stacked.
\<close>

definition collate :: "sample list \<Rightarrow> error + (tensor \<times> nat list)" where
  "collate b =
     (case b of
        [] \<Rightarrow> Inl IndexError
      | s # _ \<Rightarrow>
          if \<forall>t \<in> set b. shape (fst t) = shape (fst s)
          then Inr (Tensor (length b # shape (fst s)) (concat (map (data \<circ> fst) b)), map snd b)
          else Inl RuntimeError)"

text \<open>\<^verbatim>\<open>len(X)\<close>: the size of the first dimension.\<close>

definition len_tensor :: "tensor \<Rightarrow> nat" where
  "len_tensor x = (case shape x of [] \<Rightarrow> 0 | n # _ \<Rightarrow> n)"

subsection \<open>The network\<close>

text \<open>
  A parameter is a tensor with its gradient accumulator \<^verbatim>\<open>.grad\<close>. The library starts
  with no accumulator (\<^verbatim>\<open>None\<close>) and treats it as zero; the model stores the zero tensor.
  The stack of \<^verbatim>\<open>NeuralNetwork\<close> is an \<^verbatim>\<open>nn.Sequential\<close> of \<^verbatim>\<open>nn.Linear\<close> and
  \<^verbatim>\<open>nn.ReLU\<close> modules; \<^verbatim>\<open>nn.Flatten\<close> has no state.
\<close>

datatype parameter = Parameter (param_data: tensor) (grad: tensor)

datatype module = Linear parameter parameter | ReLU

record NeuralNetwork =
  linear_relu_stack :: "module list"
  training :: bool

text \<open>
  \<^verbatim>\<open>nn.Linear(inn, out)\<close>: a weight of shape \<open>[out, inn]\<close> and a bias of shape \<open>[out]\<close>,
  filled from a random source \<open>rnd\<close>.
\<close>

definition nn_Linear :: "nat \<Rightarrow> nat \<Rightarrow> (nat \<Rightarrow> float) \<Rightarrow> module" where
  "nn_Linear inn out rnd =
     Linear
       (Parameter (Tensor [out, inn] (map rnd [0..<out * inn]))
                  (Tensor [out, inn] (replicate (out * inn) (Finite 0))))
       (Parameter (Tensor [out] (map rnd [out * inn..<out * inn + out]))
                  (Tensor [out] (replicate out (Finite 0))))"

definition NeuralNetwork_new ::
  "(nat \<Rightarrow> float) \<Rightarrow> (nat \<Rightarrow> float) \<Rightarrow> (nat \<Rightarrow> float) \<Rightarrow> NeuralNetwork" where
  "NeuralNetwork_new r0 r2 r4 =
     \<lparr>linear_relu_stack =
        [nn_Linear (28 * 28) 512 r0, ReLU, nn_Linear 512 512 r2, ReLU, nn_Linear 512 10 r4],
      training = True\<rparr>"

text \<open>\<^verbatim>\<open>nn.Flatten()\<close> keeps the first dimension and merges the others.\<close>

definition flatten :: "tensor \<Rightarrow> error + tensor" where
  "flatten x =
     (case shape x of
        n # d # ds \<Rightarrow> Inr (Tensor [n, prod_list (d # ds)] (data x))
      | _ \<Rightarrow> Inl IndexError)"

text \<open>
  \<^verbatim>\<open>F.linear(x, w, b)\<close> on the two-dimensional output of \<open>flatten\<close>: every row \<open>r\<close> of
  \<open>x\<close> becomes the row \<open>w r + b\<close>. The inner sizes must agree.
\<close>

definition linear :: "tensor \<Rightarrow> tensor \<Rightarrow> tensor \<Rightarrow> error + tensor" where
  "linear x w b =
     (case shape x of
        [n, k] \<Rightarrow>
          (case shape w of
             [out, inn] \<Rightarrow>
               if k = inn \<and> shape b = [out]
               then Inr (Tensor [n, out]
                      (concat (map (\<lambda>r. map2 (\<lambda>wr bj. fadd float32_max (dot wr r) bj)
                                             (rows out inn (data w)) (data b))
                                   (rows n k (data x)))))
               else Inl RuntimeError
           | _ \<Rightarrow> Inl RuntimeError)
      | _ \<Rightarrow> Inl RuntimeError)"

definition relu :: "tensor \<Rightarrow> tensor" where
  "relu x = Tensor (shape x) (map (fmax2 (Finite 0)) (data x))"

fun module_forward :: "module \<Rightarrow> tensor \<Rightarrow> error + tensor" where
  "module_forward (Linear w b) x = linear x (param_data w) (param_data b)"
| "module_forward ReLU x = Inr (relu x)"

fun sequential :: "module list \<Rightarrow> tensor \<Rightarrow> error + tensor" where
  "sequential [] x = Inr x"
| "sequential (m # ms) x =
     (case module_forward m x of Inl e \<Rightarrow> Inl e | Inr x' \<Rightarrow> sequential ms x')"

definition forward :: "NeuralNetwork \<Rightarrow> tensor \<Rightarrow> error + tensor" where
  "forward m x =
     (case flatten x of
        Inl e \<Rightarrow> Inl e
      | Inr x' \<Rightarrow> sequential (linear_relu_stack m) x')"

definition train_mode :: "NeuralNetwork \<Rightarrow> NeuralNetwork" where
  "train_mode m = m\<lparr>training := True\<rparr>"

definition eval_mode :: "NeuralNetwork \<Rightarrow> NeuralNetwork" where
  "eval_mode m = m\<lparr>training := False\<rparr>"

subsection \<open>Argmax and prediction\<close>

text \<open>
  The index of the first largest element. The library counts NaN as larger than every
  number, so the first NaN of a row is its largest element.
\<close>

definition beats :: "float \<Rightarrow> float \<Rightarrow> bool" where
  "beats x best = (if best = NaN then False else if x = NaN then True else flt best x)"

fun argmax_from :: "nat \<Rightarrow> float \<Rightarrow> nat \<Rightarrow> float list \<Rightarrow> nat" where
  "argmax_from bi bv i [] = bi"
| "argmax_from bi bv i (x # xs) =
     (if beats x bv then argmax_from i x (Suc i) xs else argmax_from bi bv (Suc i) xs)"

fun argmax_list :: "float list \<Rightarrow> nat" where
  "argmax_list [] = 0"
| "argmax_list (x # xs) = argmax_from 0 x 1 xs"

text \<open>\<^verbatim>\<open>pred.argmax(1)\<close> on a two-dimensional tensor: one index for each row.\<close>

definition argmax1 :: "tensor \<Rightarrow> error + nat list" where
  "argmax1 p =
     (case shape p of
        [n, c] \<Rightarrow> if c = 0 then Inl IndexError
                  else Inr (map argmax_list (rows n c (data p)))
      | _ \<Rightarrow> Inl IndexError)"

text \<open>\<^verbatim>\<open>pred[0]\<close> and, on the one-dimensional result, \<^verbatim>\<open>.argmax(0)\<close>.\<close>

definition select0 :: "tensor \<Rightarrow> error + tensor" where
  "select0 t =
     (case shape t of
        [] \<Rightarrow> Inl IndexError
      | n # s \<Rightarrow> if n = 0 then Inl IndexError
                 else Inr (Tensor s (take (prod_list s) (data t))))"

definition argmax0 :: "tensor \<Rightarrow> error + nat" where
  "argmax0 t =
     (case shape t of
        [c] \<Rightarrow> if c = 0 then Inl IndexError else Inr (argmax_list (data t))
      | _ \<Rightarrow> Inl IndexError)"

definition classes :: "string list" where
  "classes = [''T-shirt/top'', ''Trouser'', ''Pullover'', ''Dress'', ''Coat'',
              ''Sandal'', ''Shirt'', ''Sneaker'', ''Bag'', ''Ankle boot'']"

text \<open>
  The prediction cell on one sample \<open>x\<close>: the forward pass in evaluation mode and the
  index \<^verbatim>\<open>pred[0].argmax(0)\<close>.
\<close>

definition predict :: "NeuralNetwork \<Rightarrow> tensor \<Rightarrow> error + nat" where
  "predict m x =
     (case forward (eval_mode m) x of
        Inl e \<Rightarrow> Inl e
      | Inr pred \<Rightarrow>
          (case select0 pred of
             Inl e \<Rightarrow> Inl e
           | Inr p0 \<Rightarrow> argmax0 p0))"

definition class_name :: "nat \<Rightarrow> error + string" where
  "class_name i = (if i < length classes then Inr (classes ! i) else Inl IndexError)"

subsection \<open>State dictionary, saving and loading\<close>

text \<open>
  \<^verbatim>\<open>state_dict()\<close> lists the parameter tensors under the names the module tree gives
  them: \<^verbatim>\<open>linear_relu_stack.<index>.weight\<close> and \<^verbatim>\<open>linear_relu_stack.<index>.bias\<close>.
\<close>

type_synonym state_dict = "(string \<times> tensor) list"

fun str_nat :: "nat \<Rightarrow> string" where
  "str_nat n =
     (if n < 10 then [''0123456789'' ! n]
      else str_nat (n div 10) @ [''0123456789'' ! (n mod 10)])"

fun module_state :: "string \<Rightarrow> module \<Rightarrow> state_dict" where
  "module_state prefix (Linear w b) =
     [(prefix @ ''weight'', param_data w), (prefix @ ''bias'', param_data b)]"
| "module_state prefix ReLU = []"

definition sequential_state :: "string \<Rightarrow> module list \<Rightarrow> state_dict" where
  "sequential_state prefix ms =
     concat (map2 (\<lambda>i m. module_state (prefix @ str_nat i @ ''.'') m) [0..<length ms] ms)"

definition get_state_dict :: "NeuralNetwork \<Rightarrow> state_dict" where
  "get_state_dict m = sequential_state ''linear_relu_stack.'' (linear_relu_stack m)"

text \<open>
  \<^verbatim>\<open>load_state_dict\<close> with the default \<^verbatim>\<open>strict=True\<close>: a key of the model that the
  dictionary lacks, a key of the dictionary that the model lacks, or a tensor of another
  shape raises \<^verbatim>\<open>RuntimeError\<close>. Otherwise every parameter takes the stored values and
  keeps its gradient accumulator.
\<close>

fun copy_param :: "parameter \<Rightarrow> tensor option \<Rightarrow> parameter" where
  "copy_param p None = p"
| "copy_param p (Some t) = Parameter t (grad p)"

fun module_load :: "state_dict \<Rightarrow> string \<Rightarrow> module \<Rightarrow> module" where
  "module_load sd prefix (Linear w b) =
     Linear (copy_param w (map_of sd (prefix @ ''weight'')))
            (copy_param b (map_of sd (prefix @ ''bias'')))"
| "module_load sd prefix ReLU = ReLU"

definition sequential_load :: "state_dict \<Rightarrow> string \<Rightarrow> module list \<Rightarrow> module list" where
  "sequential_load sd prefix ms =
     map2 (\<lambda>i m. module_load sd (prefix @ str_nat i @ ''.'') m) [0..<length ms] ms"

definition missing_keys :: "NeuralNetwork \<Rightarrow> state_dict \<Rightarrow> string list" where
  "missing_keys m sd = filter (\<lambda>k. map_of sd k = None) (map fst (get_state_dict m))"

definition unexpected_keys :: "NeuralNetwork \<Rightarrow> state_dict \<Rightarrow> string list" where
  "unexpected_keys m sd =
     filter (\<lambda>k. k \<notin> set (map fst (get_state_dict m))) (map fst sd)"

definition size_mismatches :: "NeuralNetwork \<Rightarrow> state_dict \<Rightarrow> string list" where
  "size_mismatches m sd =
     map fst (filter (\<lambda>(k, t). case map_of sd k of
                                 None \<Rightarrow> False
                               | Some t' \<Rightarrow> shape t' \<noteq> shape t)
                     (get_state_dict m))"

definition load_state_dict :: "NeuralNetwork \<Rightarrow> state_dict \<Rightarrow> error + NeuralNetwork" where
  "load_state_dict m sd =
     (if missing_keys m sd = [] \<and> unexpected_keys m sd = [] \<and> size_mismatches m sd = []
      then Inr (m\<lparr>linear_relu_stack :=
                    sequential_load sd ''linear_relu_stack.'' (linear_relu_stack m)\<rparr>)
      else Inl RuntimeError)"

text \<open>
  The file format of \<^verbatim>\<open>torch.save\<close> belongs to the library. A file is modelled by the
  object stored in it, and the notebook stores state dictionaries only.
\<close>

type_synonym filesystem = "string \<rightharpoonup> state_dict"

definition torch_save :: "state_dict \<Rightarrow> string \<Rightarrow> filesystem \<Rightarrow> filesystem" where
  "torch_save obj path fs = fs(path \<mapsto> obj)"

definition torch_load :: "string \<Rightarrow> filesystem \<Rightarrow> error + state_dict" where
  "torch_load path fs = (case fs path of None \<Rightarrow> Inl FileNotFoundError | Some obj \<Rightarrow> Inr obj)"

text \<open>The saving cell and the loading cell; the latter builds a new network first.\<close>

definition save_model :: "NeuralNetwork \<Rightarrow> filesystem \<Rightarrow> filesystem" where
  "save_model m fs = torch_save (get_state_dict m) ''model.pth'' fs"

definition load_model ::
  "(nat \<Rightarrow> float) \<Rightarrow> (nat \<Rightarrow> float) \<Rightarrow> (nat \<Rightarrow> float) \<Rightarrow> filesystem \<Rightarrow> error + NeuralNetwork" where
  "load_model r0 r2 r4 fs =
     (case torch_load ''model.pth'' fs of
        Inl e \<Rightarrow> Inl e
      | Inr sd \<Rightarrow> load_state_dict (NeuralNetwork_new r0 r2 r4) sd)"

text \<open>
  The two conditions of a strict load, read off the state dictionaries: the same set of
  names, and for every name the same shape.
\<close>

definition keys_match :: "NeuralNetwork \<Rightarrow> state_dict \<Rightarrow> bool" where
  "keys_match m sd = (set (map fst sd) = set (map fst (get_state_dict m)))"

definition shapes_match :: "NeuralNetwork \<Rightarrow> state_dict \<Rightarrow> bool" where
  "shapes_match m sd =
     (\<forall>(k, t) \<in> set (get_state_dict m).
        case map_of sd k of None \<Rightarrow> True | Some t' \<Rightarrow> shape t' = shape t)"

subsection \<open>Loss function, optimizer, gradients\<close>

text \<open>
  \<^verbatim>\<open>train\<close> and \<^verbatim>\<open>test\<close> take the loss function as an argument. The notebook passes
  \<^verbatim>\<open>nn.CrossEntropyLoss()\<close>: the mean over the rows of the negative log-softmax at the
  label. The library computes the log-softmax of a row by subtracting the largest entry
  first: \<open>x - max - log (sum (exp (x - max)))\<close>. A label outside the classes raises; on an
  empty batch the mean is NaN. A tensor whose data does not fill its shape does not exist
  in the library; the loss rejects it rather than read past the end of a row.
\<close>

type_synonym loss_fn = "tensor \<Rightarrow> nat list \<Rightarrow> error + float"

definition row_max :: "float list \<Rightarrow> float" where
  "row_max r = (case r of [] \<Rightarrow> NaN | x # xs \<Rightarrow> foldl fmax2 x xs)"

definition log_softmax :: "float list \<Rightarrow> float list" where
  "log_softmax r =
     (let shifted = map (\<lambda>x. fsub float32_max x (row_max r)) r;
          lse = flog (fsum float32_max (map (fexp float32_max) shifted))
      in map (\<lambda>x. fsub float32_max x lse) shifted)"

definition cross_entropy_row :: "float list \<Rightarrow> nat \<Rightarrow> float" where
  "cross_entropy_row r y = fneg (log_softmax r ! y)"

definition CrossEntropyLoss :: loss_fn where
  "CrossEntropyLoss pred y =
     (case shape pred of
        [n, c] \<Rightarrow>
          if n \<noteq> length y then Inl ValueError
          else if \<exists>t \<in> set y. c \<le> t then Inl IndexError
          else if length (data pred) \<noteq> n * c then Inl RuntimeError
          else Inr (fdiv_count float32_max
                      (fsum float32_max (map2 cross_entropy_row (rows n c (data pred)) y)) n)
      | _ \<Rightarrow> Inl RuntimeError)"

text \<open>
  \<^verbatim>\<open>torch.optim.SGD(model.parameters(), lr=1e-3)\<close>, without momentum or weight decay:
  a step replaces every parameter \<open>p\<close> by \<open>p - lr * p.grad\<close>; \<^verbatim>\<open>zero_grad\<close> clears the
  accumulators. The optimizer holds references to the parameters of the model it was
  built from, so both act on that model.
\<close>

record SGD =
  lr :: real

definition optimizer :: SGD where
  "optimizer = \<lparr>lr = 1 / 1000\<rparr>"

definition map_parameters :: "(parameter \<Rightarrow> parameter) \<Rightarrow> module list \<Rightarrow> module list" where
  "map_parameters f ms =
     map (\<lambda>m. case m of Linear w b \<Rightarrow> Linear (f w) (f b) | ReLU \<Rightarrow> ReLU) ms"

definition sgd_update :: "real \<Rightarrow> parameter \<Rightarrow> parameter" where
  "sgd_update a p =
     Parameter (Tensor (shape (param_data p))
                       (map2 (\<lambda>v g. fsub float32_max v (fmul float32_max (Finite a) g))
                             (data (param_data p)) (data (grad p))))
               (grad p)"

definition optimizer_step :: "SGD \<Rightarrow> NeuralNetwork \<Rightarrow> NeuralNetwork" where
  "optimizer_step opt m =
     m\<lparr>linear_relu_stack := map_parameters (sgd_update (lr opt)) (linear_relu_stack m)\<rparr>"

definition clear_grad :: "parameter \<Rightarrow> parameter" where
  "clear_grad p = Parameter (param_data p) (zeros_like (grad p))"

definition optimizer_zero_grad :: "NeuralNetwork \<Rightarrow> NeuralNetwork" where
  "optimizer_zero_grad m =
     m\<lparr>linear_relu_stack := map_parameters clear_grad (linear_relu_stack m)\<rparr>"

text \<open>
  \<^verbatim>\<open>loss.backward()\<close> adds to every accumulator the derivative of the loss by that
  parameter. Differentiation is the library's; the model takes it as the argument \<open>ag\<close>,
  which gives, for the loss function, the modules, the batch and the position of a linear
  module in the stack, the derivatives by its weight and by its bias.
\<close>

type_synonym autograd =
  "loss_fn \<Rightarrow> module list \<Rightarrow> tensor \<Rightarrow> nat list \<Rightarrow> nat \<Rightarrow> tensor \<times> tensor"

definition accumulate :: "parameter \<Rightarrow> tensor \<Rightarrow> parameter" where
  "accumulate p g =
     Parameter (param_data p)
               (Tensor (shape (grad p)) (map2 (fadd float32_max) (data (grad p)) (data g)))"

definition backward ::
  "autograd \<Rightarrow> loss_fn \<Rightarrow> tensor \<Rightarrow> nat list \<Rightarrow> NeuralNetwork \<Rightarrow> NeuralNetwork" where
  "backward ag loss_fn X y m =
     m\<lparr>linear_relu_stack :=
         map2 (\<lambda>i mo. case mo of
                        Linear w b \<Rightarrow>
                          Linear (accumulate w (fst (ag loss_fn (linear_relu_stack m) X y i)))
                                 (accumulate b (snd (ag loss_fn (linear_relu_stack m) X y i)))
                      | ReLU \<Rightarrow> ReLU)
              [0..<length (linear_relu_stack m)] (linear_relu_stack m)\<rparr>"

subsection \<open>Training and testing\<close>

datatype line =
    EpochHeader nat
  | TrainProgress float nat nat
  | TestError real float
  | Done

record world =
  model :: NeuralNetwork
  console :: "line list"

definition print :: "line \<Rightarrow> world \<Rightarrow> world" where
  "print l w = w\<lparr>console := console w @ [l]\<rparr>"

text \<open>
  One pass of the body of the loop of \<^verbatim>\<open>train\<close>, for the batch number \<open>batch\<close> and the
  group \<open>b\<close> of samples the loader yields: prediction, loss, backward pass, optimizer step,
  clearing of the gradients, and the progress line when \<open>batch\<close> is a multiple of 100. The
  line shows the loss, \<^verbatim>\<open>(batch + 1) * len(X)\<close> and \<^verbatim>\<open>size\<close>, the length of the dataset
  (\<open>dataset_size\<close> here).
\<close>

definition train_batch ::
  "loss_fn \<Rightarrow> SGD \<Rightarrow> autograd \<Rightarrow> nat \<Rightarrow> nat \<Rightarrow> sample list \<Rightarrow> world \<Rightarrow> error + world" where
  "train_batch loss_fn opt ag dataset_size batch b w =
     (case collate b of
        Inl e \<Rightarrow> Inl e
      | Inr (X, y) \<Rightarrow>
          (case forward (model w) X of
             Inl e \<Rightarrow> Inl e
           | Inr pred \<Rightarrow>
               (case loss_fn pred y of
                  Inl e \<Rightarrow> Inl e
                | Inr loss \<Rightarrow>
                    (let w' = w\<lparr>model := optimizer_zero_grad
                                           (optimizer_step opt
                                             (backward ag loss_fn X y (model w)))\<rparr>
                     in if batch mod 100 = 0
                        then Inr (print (TrainProgress loss ((batch + 1) * len_tensor X) dataset_size) w')
                        else Inr w'))))"

fun train_loop ::
  "loss_fn \<Rightarrow> SGD \<Rightarrow> autograd \<Rightarrow> nat \<Rightarrow> nat \<Rightarrow> sample list list \<Rightarrow> world
     \<Rightarrow> error option \<times> world" where
  "train_loop loss_fn opt ag dataset_size batch [] w = (None, w)"
| "train_loop loss_fn opt ag dataset_size batch (b # bs) w =
     (case train_batch loss_fn opt ag dataset_size batch b w of
        Inl e \<Rightarrow> (Some e, w)
      | Inr w' \<Rightarrow> train_loop loss_fn opt ag dataset_size (Suc batch) bs w')"

definition train ::
  "DataLoader \<Rightarrow> loss_fn \<Rightarrow> SGD \<Rightarrow> autograd \<Rightarrow> world \<Rightarrow> error option \<times> world" where
  "train dataloader loss_fn opt ag w =
     train_loop loss_fn opt ag (length (dataset dataloader)) 0 (batches dataloader)
       (w\<lparr>model := train_mode (model w)\<rparr>)"

text \<open>
  The loop of \<^verbatim>\<open>test\<close> adds up the losses and the numbers of rows whose largest score
  is at the label. It runs under \<^verbatim>\<open>torch.no_grad()\<close> and calls nothing that writes to
  the model. The losses are added as doubles. The number of matching rows of a batch is a
  whole number that float32 and the double hold exactly, so \<^verbatim>\<open>correct\<close> is kept as the
  exact count.
\<close>

definition count_correct :: "nat list \<Rightarrow> nat list \<Rightarrow> nat" where
  "count_correct am y = length (filter (\<lambda>(a, l). a = l) (zip am y))"

fun test_loop ::
  "NeuralNetwork \<Rightarrow> loss_fn \<Rightarrow> sample list list \<Rightarrow> float \<times> real \<Rightarrow> error + float \<times> real" where
  "test_loop m loss_fn [] acc = Inr acc"
| "test_loop m loss_fn (b # bs) (test_loss, correct) =
     (case collate b of
        Inl e \<Rightarrow> Inl e
      | Inr (X, y) \<Rightarrow>
          (case forward m X of
             Inl e \<Rightarrow> Inl e
           | Inr pred \<Rightarrow>
               (case loss_fn pred y of
                  Inl e \<Rightarrow> Inl e
                | Inr l \<Rightarrow>
                    (case argmax1 pred of
                       Inl e \<Rightarrow> Inl e
                     | Inr am \<Rightarrow>
                         test_loop m loss_fn bs
                           (fadd float64_max test_loss l,
                            correct + real (count_correct am y))))))"

text \<open>
  The two divisions at the end of \<^verbatim>\<open>test\<close>; Python raises on a zero divisor. The
  result is the pair of \<^verbatim>\<open>test_loss\<close> and \<^verbatim>\<open>correct\<close> that the last line prints.
\<close>

definition test_metrics ::
  "DataLoader \<Rightarrow> NeuralNetwork \<Rightarrow> loss_fn \<Rightarrow> error + float \<times> real" where
  "test_metrics dataloader m loss_fn =
     (let dataset_size = length (dataset dataloader);
          num_batches = len_dataloader dataloader
      in case test_loop (eval_mode m) loss_fn (batches dataloader) (Finite 0, 0) of
           Inl e \<Rightarrow> Inl e
         | Inr (test_loss, correct) \<Rightarrow>
             if num_batches = 0 then Inl ZeroDivisionError
             else if dataset_size = 0 then Inl ZeroDivisionError
             else Inr (fdiv_count float64_max test_loss num_batches,
                       correct / real dataset_size))"

definition test :: "DataLoader \<Rightarrow> loss_fn \<Rightarrow> world \<Rightarrow> error option \<times> world" where
  "test dataloader loss_fn w =
     (let w' = w\<lparr>model := eval_mode (model w)\<rparr>
      in case test_metrics dataloader (model w) loss_fn of
           Inl e \<Rightarrow> (Some e, w')
         | Inr (test_loss, correct) \<Rightarrow> (None, print (TestError (100 * correct) test_loss) w'))"

text \<open>
  The cell that runs the epochs: \<^verbatim>\<open>for t in range(epochs)\<close>, then \<^verbatim>\<open>Done!\<close>. The
  number of epochs is the argument \<open>n\<close> of \<open>run_epochs\<close>; the notebook sets it to 5.
\<close>

definition epochs :: nat where
  "epochs = 5"

fun epochs_loop ::
  "DataLoader \<Rightarrow> DataLoader \<Rightarrow> loss_fn \<Rightarrow> SGD \<Rightarrow> autograd \<Rightarrow> nat list \<Rightarrow> world
     \<Rightarrow> error option \<times> world" where
  "epochs_loop train_dl test_dl loss_fn opt ag [] w = (None, w)"
| "epochs_loop train_dl test_dl loss_fn opt ag (t # ts) w =
     (case train train_dl loss_fn opt ag (print (EpochHeader (t + 1)) w) of
        (Some e, w1) \<Rightarrow> (Some e, w1)
      | (None, w1) \<Rightarrow>
          (case test test_dl loss_fn w1 of
             (Some e, w2) \<Rightarrow> (Some e, w2)
           | (None, w2) \<Rightarrow> epochs_loop train_dl test_dl loss_fn opt ag ts w2))"

definition run_epochs ::
  "nat \<Rightarrow> DataLoader \<Rightarrow> DataLoader \<Rightarrow> loss_fn \<Rightarrow> SGD \<Rightarrow> autograd \<Rightarrow> world
     \<Rightarrow> error option \<times> world" where
  "run_epochs n train_dl test_dl loss_fn opt ag w =
     (case epochs_loop train_dl test_dl loss_fn opt ag [0..<n] w of
        (Some e, w') \<Rightarrow> (Some e, w')
      | (None, w') \<Rightarrow> (None, print Done w'))"

subsection \<open>The shape of the network\<close>

text \<open>
  What the constructor of \<^verbatim>\<open>NeuralNetwork\<close> establishes and every later step keeps: five
  modules, linear layers of sizes 784 to 512, 512 to 512 and 512 to 10 with a \<^verbatim>\<open>ReLU\<close>
  between them, every tensor and every gradient accumulator filling its shape.
\<close>

definition param_ok :: "nat list \<Rightarrow> parameter \<Rightarrow> bool" where
  "param_ok s p =
     (shape (param_data p) = s \<and> length (data (param_data p)) = prod_list s \<and>
      shape (grad p) = s \<and> length (data (grad p)) = prod_list s)"

fun linear_ok :: "nat \<Rightarrow> nat \<Rightarrow> module \<Rightarrow> bool" where
  "linear_ok inn out (Linear w b) = (param_ok [out, inn] w \<and> param_ok [out] b)"
| "linear_ok inn out ReLU = False"

definition nn_ok :: "NeuralNetwork \<Rightarrow> bool" where
  "nn_ok m =
     (length (linear_relu_stack m) = 5 \<and>
      linear_ok 784 512 (linear_relu_stack m ! 0) \<and>
      linear_relu_stack m ! 1 = ReLU \<and>
      linear_ok 512 512 (linear_relu_stack m ! 2) \<and>
      linear_relu_stack m ! 3 = ReLU \<and>
      linear_ok 512 10 (linear_relu_stack m ! 4))"

subsection \<open>The specification's reading of the loops\<close>

text \<open>
  The Model Parameters of the specification: for every module of the stack, in order, the
  weight and bias tensors of a linear layer and nothing for a \<^verbatim>\<open>ReLU\<close>.
\<close>

fun module_data :: "module \<Rightarrow> (tensor \<times> tensor) option" where
  "module_data (Linear w b) = Some (param_data w, param_data b)"
| "module_data ReLU = None"

definition model_parameters :: "NeuralNetwork \<Rightarrow> (tensor \<times> tensor) option list" where
  "model_parameters m = map module_data (linear_relu_stack m)"

text \<open>
  The specification's description of \<^verbatim>\<open>train\<close>, on the model alone: for each batch in
  order, compute the predictions, compute the loss, compute the gradients from the loss,
  apply one optimizer step, reset the gradients to zero. A failure ends the pass and
  leaves the model as the last completed batch left it.
\<close>

definition spec_train_step ::
  "loss_fn \<Rightarrow> SGD \<Rightarrow> autograd \<Rightarrow> NeuralNetwork \<Rightarrow> sample list \<Rightarrow> error + NeuralNetwork" where
  "spec_train_step loss_fn opt ag m b =
     (case collate b of
        Inl e \<Rightarrow> Inl e
      | Inr (inputs, labels) \<Rightarrow>
          (case forward m inputs of
             Inl e \<Rightarrow> Inl e
           | Inr predictions \<Rightarrow>
               (case loss_fn predictions labels of
                  Inl e \<Rightarrow> Inl e
                | Inr loss \<Rightarrow>
                    Inr (optimizer_zero_grad
                          (optimizer_step opt (backward ag loss_fn inputs labels m))))))"

fun spec_train ::
  "loss_fn \<Rightarrow> SGD \<Rightarrow> autograd \<Rightarrow> sample list list \<Rightarrow> NeuralNetwork
     \<Rightarrow> error option \<times> NeuralNetwork" where
  "spec_train loss_fn opt ag [] m = (None, m)"
| "spec_train loss_fn opt ag (b # bs) m =
     (case spec_train_step loss_fn opt ag m b of
        Inl e \<Rightarrow> (Some e, m)
      | Inr m' \<Rightarrow> spec_train loss_fn opt ag bs m')"

text \<open>
  The loss \<^verbatim>\<open>train\<close> computes for the batch \<open>b\<close> when the model stands at \<open>m\<close> (zero when
  that computation raises), and the progress line of the batch number \<open>i\<close>: its loss
  under the model the batches before it have produced, \<^verbatim>\<open>(i + 1) * len(X)\<close> and the size
  of the dataset.
\<close>

definition batch_loss :: "loss_fn \<Rightarrow> NeuralNetwork \<Rightarrow> sample list \<Rightarrow> float" where
  "batch_loss loss_fn m b =
     (case collate b of
        Inl e \<Rightarrow> Finite 0
      | Inr (X, y) \<Rightarrow>
          (case forward m X of
             Inl e \<Rightarrow> Finite 0
           | Inr pred \<Rightarrow> (case loss_fn pred y of Inl e \<Rightarrow> Finite 0 | Inr loss \<Rightarrow> loss)))"

definition progress_line ::
  "loss_fn \<Rightarrow> SGD \<Rightarrow> autograd \<Rightarrow> nat \<Rightarrow> sample list list \<Rightarrow> NeuralNetwork \<Rightarrow> nat \<Rightarrow> line" where
  "progress_line loss_fn opt ag dataset_size bs m i =
     TrainProgress (batch_loss loss_fn (snd (spec_train loss_fn opt ag (take i bs) m)) (bs ! i))
                   ((i + 1) * length (bs ! i)) dataset_size"

text \<open>
  One epoch on the model: a pass of training, then \<^verbatim>\<open>test\<close>, which only switches the
  model to evaluation mode. The lines of the epoch number \<open>t\<close> are its header, the
  progress lines of the training pass, and the line of \<^verbatim>\<open>test\<close>.
\<close>

definition spec_epoch :: "loss_fn \<Rightarrow> SGD \<Rightarrow> autograd \<Rightarrow> DataLoader \<Rightarrow> NeuralNetwork \<Rightarrow> NeuralNetwork" where
  "spec_epoch loss_fn opt ag train_dl m =
     eval_mode (snd (spec_train loss_fn opt ag (batches train_dl) (train_mode m)))"

definition epoch_lines ::
  "loss_fn \<Rightarrow> SGD \<Rightarrow> autograd \<Rightarrow> DataLoader \<Rightarrow> DataLoader \<Rightarrow> nat \<Rightarrow> NeuralNetwork \<Rightarrow> line list" where
  "epoch_lines loss_fn opt ag train_dl test_dl t m =
     [EpochHeader (t + 1)] @
     map (progress_line loss_fn opt ag (length (dataset train_dl)) (batches train_dl) (train_mode m))
         (filter (\<lambda>i. i mod 100 = 0) [0..<length (batches train_dl)]) @
     (case test_metrics test_dl (snd (spec_train loss_fn opt ag (batches train_dl) (train_mode m)))
             loss_fn of
        Inl e \<Rightarrow> []
      | Inr (test_loss, correct) \<Rightarrow> [TestError (100 * correct) test_loss])"

subsection \<open>Ranges of values\<close>





subsection \<open>Well-formed inputs\<close>

text \<open>
  What the data source and the library guarantee: every image has the shape \<open>[1, 28, 28]\<close>
  and every label is one of the ten classes; every derivative has as many entries as the
  parameter it belongs to. \<open>grads_zero\<close> says that every gradient accumulator holds
  zeros only.
\<close>

definition data_ok :: "sample list \<Rightarrow> bool" where
  "data_ok ds = (\<forall>(x, l) \<in> set ds. shape x = [1, 28, 28] \<and> l < 10)"

definition autograd_ok :: "autograd \<Rightarrow> bool" where
  "autograd_ok ag =
     (\<forall>lf ms X y i w b. i < length ms \<and> ms ! i = Linear w b \<longrightarrow>
        length (data (fst (ag lf ms X y i))) = length (data (param_data w)) \<and>
        length (data (snd (ag lf ms X y i))) = length (data (param_data b)))"

fun module_grads_zero :: "module \<Rightarrow> bool" where
  "module_grads_zero (Linear w b) =
     ((\<forall>g \<in> set (data (grad w)). g = Finite 0) \<and> (\<forall>g \<in> set (data (grad b)). g = Finite 0))"
| "module_grads_zero ReLU = True"

definition grads_zero :: "NeuralNetwork \<Rightarrow> bool" where
  "grads_zero m = (\<forall>mo \<in> set (linear_relu_stack m). module_grads_zero mo)"

text \<open>Inputs for examples: blank images of class 9 and a derivative that is zero.\<close>

definition blank_dataset :: "nat \<Rightarrow> sample list" where
  "blank_dataset n = replicate n (Tensor [1, 28, 28] (replicate 784 (Finite 0)), 9)"

definition zero_autograd :: autograd where
  "zero_autograd loss_fn ms X y i =
     (case ms ! i of
        Linear w b \<Rightarrow> (zeros_like (param_data w), zeros_like (param_data b))
      | ReLU \<Rightarrow> (Tensor [] [], Tensor [] []))"

definition initial_world :: world where
  "initial_world =
     \<lparr>model = NeuralNetwork_new (\<lambda>i. Finite 0) (\<lambda>i. Finite 0) (\<lambda>i. Finite 0),
      console = []\<rparr>"


subsection \<open>Topology\<close>




section \<open>Properties\<close>

subsection \<open>Data loader\<close>

lemma batches_of_simps_if:
  "0 < n \<Longrightarrow> xs \<noteq> [] \<Longrightarrow> batches_of n xs = take n xs # batches_of n (drop n xs)"
  by simp

declare batches_of.simps [simp del]

lemma batches_of_Nil [simp]: "batches_of n [] = []"
  by (simp add: batches_of.simps)

lemma batches_of_zero [simp]: "batches_of 0 xs = []"
  by (simp add: batches_of.simps)

lemma map_length_batches_of:
  "0 < n \<Longrightarrow> map length (batches_of n xs) =
     replicate (length xs div n) n @ (if length xs mod n = 0 then [] else [length xs mod n])"
proof (induction n xs rule: batches_of.induct)
  case (1 n xs)
  show ?case
  proof (cases "xs = []")
    case True
    then show ?thesis by simp
  next
    case False
    note ne = this
    have step: "batches_of n xs = take n xs # batches_of n (drop n xs)"
      using "1.prems" ne by (rule batches_of_simps_if)
    have ih: "map length (batches_of n (drop n xs)) =
        replicate (length (drop n xs) div n) n @
        (if length (drop n xs) mod n = 0 then [] else [length (drop n xs) mod n])"
      using "1.IH" "1.prems" ne by simp
    show ?thesis
    proof (cases "n \<le> length xs")
      case True
      then have d: "length xs div n = Suc ((length xs - n) div n)"
        and m: "length xs mod n = (length xs - n) mod n"
        using "1.prems" by (simp_all add: le_div_geq le_mod_geq)
      show ?thesis
        using True by (simp add: step ih d m min_def)
    next
      case False
      then have lt: "length xs < n" by simp
      then have "length xs mod n = length xs" "length xs div n = 0" by simp_all
      moreover have "length xs \<noteq> 0" using ne by simp
      ultimately show ?thesis
        using lt by (simp add: step min_def)
    qed
  qed
qed


lemma batches_of_nonempty: "b \<in> set (batches_of n xs) \<Longrightarrow> b \<noteq> []"
proof (induction n xs rule: batches_of.induct)
  case (1 n xs)
  show ?case
  proof (cases "n = 0 \<or> xs = []")
    case True
    then show ?thesis using "1.prems" by (auto simp: batches_of.simps)
  next
    case False
    then have "batches_of n xs = take n xs # batches_of n (drop n xs)"
      by (simp add: batches_of_simps_if)
    then show ?thesis
      using "1.IH" "1.prems" False by auto
  qed
qed

lemma batches_of_subset: "b \<in> set (batches_of n xs) \<Longrightarrow> set b \<subseteq> set xs"
proof (induction n xs rule: batches_of.induct)
  case (1 n xs)
  show ?case
  proof (cases "n = 0 \<or> xs = []")
    case True
    then show ?thesis using "1.prems" by (auto simp: batches_of.simps)
  next
    case False
    then have "batches_of n xs = take n xs # batches_of n (drop n xs)"
      by (simp add: batches_of_simps_if)
    then show ?thesis
      using "1.IH" "1.prems" False
      by (auto dest: in_set_takeD in_set_dropD)
  qed
qed

lemma last_batches_of:
  assumes "0 < n" and "length xs mod n \<noteq> 0"
  shows "length (last (batches_of n xs)) = length xs mod n"
proof -
  have m: "map length (batches_of n xs) = replicate (length xs div n) n @ [length xs mod n]"
    using assms by (simp add: map_length_batches_of)
  then have ne: "batches_of n xs \<noteq> []"
    by auto
  have "length (last (batches_of n xs)) = last (map length (batches_of n xs))"
    using ne by (simp add: last_map)
  then show ?thesis
    by (simp add: m)
qed

text \<open>
  C7, as stated: every batch holds exactly 64 samples. The loader keeps the rest of the
  dataset as a last, shorter batch: the 60000 training samples give 937 batches of 64 and
  one of 32.
\<close>

theorem C7_last_training_batch_counterexample:
  "length (last (batches \<lparr>dataset = replicate 60000 (Tensor [1, 28, 28] (replicate 784 (Finite 0)), 9),
                            loader_batch_size = batch_size\<rparr>)) = 32"
  by (simp add: batches_def batch_size_def last_batches_of)

text \<open>
  C7, amended: with batch size 64 the loader yields \<open>len(dataset) div 64\<close> batches of
  exactly 64 samples, followed by one batch of \<open>len(dataset) mod 64\<close> samples when that
  is not zero. No batch is empty and none holds more than 64 samples.
\<close>

theorem C7_batch_sizes:
  "map length (batches \<lparr>dataset = ds, loader_batch_size = batch_size\<rparr>) =
     replicate (length ds div 64) 64 @
     (if length ds mod 64 = 0 then [] else [length ds mod 64])"
  by (simp add: batches_def batch_size_def map_length_batches_of)

theorem C7_batch_sizes_witness:
  "map length (batches \<lparr>dataset = replicate 130 (Tensor [1, 28, 28] (replicate 784 (Finite 0)), 9),
                         loader_batch_size = batch_size\<rparr>) = [64, 64, 2]"
  using C7_batch_sizes [of "replicate 130 (Tensor [1, 28, 28] (replicate 784 (Finite 0)), 9)"]
  by (simp add: numeral_2_eq_2)

subsection \<open>Forward pass\<close>

lemma length_rows [simp]: "length (rows n k d) = n"
  by (simp add: rows_def)

lemma length_concat_const:
  "(\<And>x. x \<in> set xs \<Longrightarrow> length (f x) = c) \<Longrightarrow> length (concat (map f xs)) = length xs * c"
  by (induction xs) simp_all

lemma linear_Inr:
  assumes "shape x = [n, k]" and "shape w = [out, k]" and "shape b = [out]"
    and "length (data b) = out"
  shows "\<exists>d. linear x w b = Inr (Tensor [n, out] d) \<and> length d = n * out"
proof -
  let ?f = "\<lambda>r. map2 (\<lambda>wr bj. fadd float32_max (dot wr r) bj) (rows out k (data w)) (data b)"
  have "length (concat (map ?f (rows n k (data x)))) = length (rows n k (data x)) * out"
    by (rule length_concat_const) (simp add: assms)
  then show ?thesis
    by (simp add: linear_def assms)
qed

lemma shape_relu [simp]: "shape (relu x) = shape x"
  by (simp add: relu_def)

lemma length_data_relu [simp]: "length (data (relu x)) = length (data x)"
  by (simp add: relu_def)

lemma nn_okE:
  assumes "nn_ok m"
  obtains w0 b0 w2 b2 w4 b4 where
    "linear_relu_stack m = [Linear w0 b0, ReLU, Linear w2 b2, ReLU, Linear w4 b4]"
    "param_ok [512, 784] w0" "param_ok [512] b0"
    "param_ok [512, 512] w2" "param_ok [512] b2"
    "param_ok [10, 512] w4" "param_ok [10] b4"
proof -
  from assms have len: "length (linear_relu_stack m) = 5"
    by (simp add: nn_ok_def)
  then obtain m0 m1 m2 m3 m4 where st: "linear_relu_stack m = [m0, m1, m2, m3, m4]"
    by (auto simp: length_Suc_conv numeral_eq_Suc)
  from assms st have r: "m1 = ReLU" "m3 = ReLU"
    and l: "linear_ok 784 512 m0" "linear_ok 512 512 m2" "linear_ok 512 10 m4"
    by (simp_all add: nn_ok_def)
  from l(1) obtain w0 b0 where m0: "m0 = Linear w0 b0" by (cases m0) simp_all
  from l(2) obtain w2 b2 where m2: "m2 = Linear w2 b2" by (cases m2) simp_all
  from l(3) obtain w4 b4 where m4: "m4 = Linear w4 b4" by (cases m4) simp_all
  show ?thesis
    using that [of w0 b0 w2 b2 w4 b4] st r l by (simp add: m0 m2 m4)
qed

lemma sequential_nn:
  assumes "param_ok [512, 784] w0" "param_ok [512] b0"
    and "param_ok [512, 512] w2" "param_ok [512] b2"
    and "param_ok [10, 512] w4" "param_ok [10] b4"
    and "shape x = [n, 784]"
  shows "\<exists>d. sequential [Linear w0 b0, ReLU, Linear w2 b2, ReLU, Linear w4 b4] x
               = Inr (Tensor [n, 10] d) \<and> length d = n * 10"
proof -
  obtain d0 where d0: "linear x (param_data w0) (param_data b0) = Inr (Tensor [n, 512] d0)"
    using linear_Inr [of x n 784 "param_data w0" 512 "param_data b0"] assms
    by (auto simp: param_ok_def)
  obtain d2 where d2: "linear (relu (Tensor [n, 512] d0)) (param_data w2) (param_data b2)
      = Inr (Tensor [n, 512] d2)"
    using linear_Inr [of "relu (Tensor [n, 512] d0)" n 512 "param_data w2" 512 "param_data b2"]
      assms by (auto simp: param_ok_def)
  obtain d4 where d4: "linear (relu (Tensor [n, 512] d2)) (param_data w4) (param_data b4)
      = Inr (Tensor [n, 10] d4)" and len: "length d4 = n * 10"
    using linear_Inr [of "relu (Tensor [n, 512] d2)" n 512 "param_data w4" 10 "param_data b4"]
      assms by (auto simp: param_ok_def)
  show ?thesis
    by (simp add: d0 d2 d4 len)
qed

lemma forward_nn_ok:
  assumes "nn_ok m" and "shape x = n # s" and "s \<noteq> []" and "prod_list s = 784"
  shows "\<exists>d. forward m x = Inr (Tensor [n, 10] d) \<and> length d = n * 10"
proof -
  from assms(3) obtain c cs where s: "s = c # cs" by (cases s) simp_all
  have fl: "flatten x = Inr (Tensor [n, 784] (data x))"
    using assms(2,4) by (simp add: flatten_def s)
  from assms(1) obtain w0 b0 w2 b2 w4 b4 where
    st: "linear_relu_stack m = [Linear w0 b0, ReLU, Linear w2 b2, ReLU, Linear w4 b4]"
    and ok: "param_ok [512, 784] w0" "param_ok [512] b0" "param_ok [512, 512] w2"
      "param_ok [512] b2" "param_ok [10, 512] w4" "param_ok [10] b4"
    by (rule nn_okE)
  have "\<exists>d. sequential [Linear w0 b0, ReLU, Linear w2 b2, ReLU, Linear w4 b4]
               (Tensor [n, 784] (data x)) = Inr (Tensor [n, 10] d) \<and> length d = n * 10"
    using ok by (rule sequential_nn) simp
  then show ?thesis
    by (simp add: forward_def fl st)
qed

lemma forward_eval_mode [simp]: "forward (eval_mode m) x = forward m x"
  by (simp add: forward_def eval_mode_def cong: sum.case_cong)

lemma forward_train_mode [simp]: "forward (train_mode m) x = forward m x"
  by (simp add: forward_def train_mode_def cong: sum.case_cong)

lemma nn_ok_eval_mode [simp]: "nn_ok (eval_mode m) = nn_ok m"
  by (simp add: nn_ok_def eval_mode_def)

lemma nn_ok_train_mode [simp]: "nn_ok (train_mode m) = nn_ok m"
  by (simp add: nn_ok_def train_mode_def)

lemma linear_ok_nn_Linear: "linear_ok inn out (nn_Linear inn out rnd)"
  by (simp add: nn_Linear_def param_ok_def)

lemma nn_ok_NeuralNetwork_new: "nn_ok (NeuralNetwork_new r0 r2 r4)"
proof -
  have "linear_ok 784 512 (nn_Linear (28 * 28) 512 r0)"
    using linear_ok_nn_Linear [of "28 * 28" 512 r0] by simp
  then show ?thesis
    by (simp add: nn_ok_def NeuralNetwork_new_def linear_ok_nn_Linear)
qed

subsection \<open>Prediction\<close>

lemma argmax_from_less: "bi < i \<Longrightarrow> argmax_from bi bv i xs < i + length xs"
proof (induction xs arbitrary: bi bv i)
  case Nil
  then show ?case by simp
next
  case (Cons x xs)
  have "argmax_from i x (Suc i) xs < Suc i + length xs"
    using Cons.IH [of i "Suc i" x] by simp
  moreover have "argmax_from bi bv (Suc i) xs < Suc i + length xs"
    using Cons.IH [of bi "Suc i" bv] Cons.prems by simp
  ultimately show ?case by simp
qed

lemma argmax_list_less: "xs \<noteq> [] \<Longrightarrow> argmax_list xs < length xs"
proof (cases xs)
  case Nil
  assume "xs \<noteq> []"
  with Nil show ?thesis by simp
next
  case (Cons x xs')
  have "argmax_from 0 x 1 xs' < 1 + length xs'"
    by (rule argmax_from_less) simp
  then show ?thesis by (simp add: Cons)
qed

lemma argmax_list_le: "length xs \<le> c \<Longrightarrow> 0 < c \<Longrightarrow> argmax_list xs < c"
  using argmax_list_less [of xs] by (cases "xs = []") auto

text \<open>
  C6: for the network of the notebook and a sample of shape \<open>[1, 28, 28]\<close>, the prediction
  cell computes an index, and the index is one of the ten classes.
\<close>

theorem C6_predict_in_label_range:
  assumes "nn_ok m" and "shape x = [1, 28, 28]"
  shows "\<exists>k. predict m x = Inr k \<and> k < 10"
proof -
  obtain d where fw: "forward m x = Inr (Tensor [1, 10] d)"
    using forward_nn_ok [of m x 1 "[28, 28]"] assms by auto
  have "argmax_list (take 10 d) < 10"
    by (rule argmax_list_le) simp_all
  then show ?thesis
    by (simp add: predict_def fw select0_def argmax0_def)
qed

theorem C6_predict_in_label_range_witness:
  "nn_ok (NeuralNetwork_new (\<lambda>i. Finite 0) (\<lambda>i. Finite 0) (\<lambda>i. Finite 0)) \<and>
   shape (Tensor [1, 28, 28] (replicate 784 (Finite 0))) = [1, 28, 28] \<and>
   (\<exists>k. predict (NeuralNetwork_new (\<lambda>i. Finite 0) (\<lambda>i. Finite 0) (\<lambda>i. Finite 0))
           (Tensor [1, 28, 28] (replicate 784 (Finite 0))) = Inr k \<and> k < 10)"
  using C6_predict_in_label_range
    [of "NeuralNetwork_new (\<lambda>i. Finite 0) (\<lambda>i. Finite 0) (\<lambda>i. Finite 0)" "Tensor [1, 28, 28] (replicate 784 (Finite 0))"]
    nn_ok_NeuralNetwork_new [of "\<lambda>i. Finite 0" "\<lambda>i. Finite 0" "\<lambda>i. Finite 0"]
  by simp

subsection \<open>State dictionary, saving and loading\<close>

lemma upt_0_5: "[0..<5] = [0, 1, 2, 3, 4]"
  by (simp add: upt_rec)

lemma str_nat_digits:
  "str_nat 0 = ''0''" "str_nat (Suc 0) = ''1''" "str_nat (Suc (Suc 0)) = ''2''"
  "str_nat (Suc (Suc (Suc 0))) = ''3''" "str_nat (Suc (Suc (Suc (Suc 0)))) = ''4''"
  by simp_all

declare str_nat.simps [simp del]

lemma get_state_dict_nn:
  assumes "linear_relu_stack m = [Linear w0 b0, ReLU, Linear w2 b2, ReLU, Linear w4 b4]"
  shows "get_state_dict m =
    [(''linear_relu_stack.0.weight'', param_data w0), (''linear_relu_stack.0.bias'', param_data b0),
     (''linear_relu_stack.2.weight'', param_data w2), (''linear_relu_stack.2.bias'', param_data b2),
     (''linear_relu_stack.4.weight'', param_data w4), (''linear_relu_stack.4.bias'', param_data b4)]"
  by (simp add: get_state_dict_def sequential_state_def assms upt_0_5 str_nat_digits)

lemma sequential_load_nn:
  assumes "ms = [Linear w0 b0, ReLU, Linear w2 b2, ReLU, Linear w4 b4]"
    and "sd = [(''linear_relu_stack.0.weight'', t0), (''linear_relu_stack.0.bias'', u0),
     (''linear_relu_stack.2.weight'', t2), (''linear_relu_stack.2.bias'', u2),
     (''linear_relu_stack.4.weight'', t4), (''linear_relu_stack.4.bias'', u4)]"
  shows "sequential_load sd ''linear_relu_stack.'' ms =
     [Linear (Parameter t0 (grad w0)) (Parameter u0 (grad b0)), ReLU,
      Linear (Parameter t2 (grad w2)) (Parameter u2 (grad b2)), ReLU,
      Linear (Parameter t4 (grad w4)) (Parameter u4 (grad b4))]"
  by (simp add: sequential_load_def assms upt_0_5 str_nat_digits)


lemma missing_keys_Nil: "missing_keys m sd = [] \<longleftrightarrow> set (map fst (get_state_dict m)) \<subseteq> set (map fst sd)"
  by (auto simp: missing_keys_def filter_empty_conv map_of_eq_None_iff)

lemma unexpected_keys_Nil: "unexpected_keys m sd = [] \<longleftrightarrow> set (map fst sd) \<subseteq> set (map fst (get_state_dict m))"
  by (auto simp: unexpected_keys_def filter_empty_conv)

lemma size_mismatches_Nil: "size_mismatches m sd = [] \<longleftrightarrow> shapes_match m sd"
  by (auto simp: size_mismatches_def shapes_match_def filter_empty_conv split: option.splits)

lemma load_state_dict_iff:
  "load_state_dict m sd =
     (if keys_match m sd \<and> shapes_match m sd
      then Inr (m\<lparr>linear_relu_stack := sequential_load sd ''linear_relu_stack.'' (linear_relu_stack m)\<rparr>)
      else Inl RuntimeError)"
  unfolding load_state_dict_def missing_keys_Nil unexpected_keys_Nil size_mismatches_Nil keys_match_def
  by auto


lemma load_state_dict_nn:
  assumes m: "linear_relu_stack m = [Linear w0 b0, ReLU, Linear w2 b2, ReLU, Linear w4 b4]"
    and f: "linear_relu_stack f = [Linear v0 c0, ReLU, Linear v2 c2, ReLU, Linear v4 c4]"
    and sh: "shape (param_data w0) = shape (param_data v0)" "shape (param_data b0) = shape (param_data c0)"
      "shape (param_data w2) = shape (param_data v2)" "shape (param_data b2) = shape (param_data c2)"
      "shape (param_data w4) = shape (param_data v4)" "shape (param_data b4) = shape (param_data c4)"
  shows "load_state_dict f (get_state_dict m) =
     Inr (f\<lparr>linear_relu_stack :=
       [Linear (Parameter (param_data w0) (grad v0)) (Parameter (param_data b0) (grad c0)), ReLU,
        Linear (Parameter (param_data w2) (grad v2)) (Parameter (param_data b2) (grad c2)), ReLU,
        Linear (Parameter (param_data w4) (grad v4)) (Parameter (param_data b4) (grad c4))]\<rparr>)"
proof -
  have km: "keys_match f (get_state_dict m)"
    by (simp add: keys_match_def get_state_dict_nn [OF m] get_state_dict_nn [OF f])
  have sm: "shapes_match f (get_state_dict m)"
    by (simp add: shapes_match_def get_state_dict_nn [OF m] get_state_dict_nn [OF f] sh)
  have ld: "sequential_load (get_state_dict m) ''linear_relu_stack.'' (linear_relu_stack f) =
       [Linear (Parameter (param_data w0) (grad v0)) (Parameter (param_data b0) (grad c0)), ReLU,
        Linear (Parameter (param_data w2) (grad v2)) (Parameter (param_data b2) (grad c2)), ReLU,
        Linear (Parameter (param_data w4) (grad v4)) (Parameter (param_data b4) (grad c4))]"
    by (rule sequential_load_nn [OF f get_state_dict_nn [OF m]])
  show ?thesis
    by (simp only: load_state_dict_iff km sm ld simp_thms if_True)
qed

lemma torch_load_save [simp]: "torch_load path (torch_save obj path fs) = Inr obj"
  by (simp add: torch_load_def torch_save_def)

text \<open>
  C2: saving a network of the notebook's shape and loading the file into a newly
  constructed \<^verbatim>\<open>NeuralNetwork\<close> succeeds, and the loaded network has the same state
  dictionary, computes the same scores on every input and predicts the same class. In the
  model the stored tensors come back as they were written, so equality is exact.
\<close>

theorem C2_save_load_round_trip:
  assumes "nn_ok m"
  shows "\<exists>m'. load_model r0 r2 r4 (save_model m fs) = Inr m' \<and>
               get_state_dict m' = get_state_dict m \<and>
               (\<forall>x. forward m' x = forward m x) \<and>
               (\<forall>x. predict m' x = predict m x)"
proof -
  let ?f = "NeuralNetwork_new r0 r2 r4"
  from assms obtain w0 b0 w2 b2 w4 b4 where
    m: "linear_relu_stack m = [Linear w0 b0, ReLU, Linear w2 b2, ReLU, Linear w4 b4]"
    and mok: "param_ok [512, 784] w0" "param_ok [512] b0" "param_ok [512, 512] w2"
      "param_ok [512] b2" "param_ok [10, 512] w4" "param_ok [10] b4"
    by (rule nn_okE)
  have "nn_ok ?f" by (rule nn_ok_NeuralNetwork_new)
  then obtain v0 c0 v2 c2 v4 c4 where
    f: "linear_relu_stack ?f = [Linear v0 c0, ReLU, Linear v2 c2, ReLU, Linear v4 c4]"
    and fok: "param_ok [512, 784] v0" "param_ok [512] c0" "param_ok [512, 512] v2"
      "param_ok [512] c2" "param_ok [10, 512] v4" "param_ok [10] c4"
    by (rule nn_okE)
  let ?stack = "[Linear (Parameter (param_data w0) (grad v0)) (Parameter (param_data b0) (grad c0)), ReLU,
        Linear (Parameter (param_data w2) (grad v2)) (Parameter (param_data b2) (grad c2)), ReLU,
        Linear (Parameter (param_data w4) (grad v4)) (Parameter (param_data b4) (grad c4))]"
  let ?m' = "?f\<lparr>linear_relu_stack := ?stack\<rparr>"
  have ld: "load_state_dict ?f (get_state_dict m) = Inr ?m'"
    using mok fok by (intro load_state_dict_nn [OF m f]) (simp_all add: param_ok_def)
  have st: "linear_relu_stack ?m' = ?stack" by simp
  have lm: "load_model r0 r2 r4 (save_model m fs) = Inr ?m'"
    by (simp only: load_model_def save_model_def torch_load_save sum.case ld)
  have sd: "get_state_dict ?m' = get_state_dict m"
    by (simp add: get_state_dict_nn [OF m] get_state_dict_nn [OF st])
  have fw: "forward ?m' x = forward m x" for x
    by (simp add: forward_def st m split: sum.splits)
  have pr: "predict ?m' x = predict m x" for x
    by (simp only: predict_def forward_eval_mode fw)
  show ?thesis
    using lm sd fw pr by blast
qed

theorem C2_save_load_round_trip_witness:
  "nn_ok (NeuralNetwork_new (\<lambda>i. Finite 0) (\<lambda>i. Finite 0) (\<lambda>i. Finite 0)) \<and>
   (\<exists>m'. load_model (\<lambda>i. Finite 1) (\<lambda>i. Finite 1) (\<lambda>i. Finite 1)
            (save_model (NeuralNetwork_new (\<lambda>i. Finite 0) (\<lambda>i. Finite 0) (\<lambda>i. Finite 0)) Map.empty) = Inr m' \<and>
         get_state_dict m' = get_state_dict (NeuralNetwork_new (\<lambda>i. Finite 0) (\<lambda>i. Finite 0) (\<lambda>i. Finite 0)) \<and>
         (\<forall>x. forward m' x = forward (NeuralNetwork_new (\<lambda>i. Finite 0) (\<lambda>i. Finite 0) (\<lambda>i. Finite 0)) x) \<and>
         (\<forall>x. predict m' x = predict (NeuralNetwork_new (\<lambda>i. Finite 0) (\<lambda>i. Finite 0) (\<lambda>i. Finite 0)) x))"
proof -
  have ok: "nn_ok (NeuralNetwork_new (\<lambda>i. Finite 0) (\<lambda>i. Finite 0) (\<lambda>i. Finite 0))"
    by (rule nn_ok_NeuralNetwork_new)
  show ?thesis
    using ok C2_save_load_round_trip [OF ok, of "\<lambda>i. Finite 1" "\<lambda>i. Finite 1" "\<lambda>i. Finite 1" Map.empty]
    by (intro conjI)
qed


subsection \<open>The training loop follows the specification\<close>

lemma model_print [simp]: "model (print l w) = model w"
  by (simp add: print_def)

lemma console_print [simp]: "console (print l w) = console w @ [l]"
  by (simp add: print_def)

lemma train_batch_model:
  "train_batch lf opt ag sz k b w = Inr w' \<Longrightarrow> spec_train_step lf opt ag (model w) b = Inr (model w')"
  by (auto simp: train_batch_def spec_train_step_def Let_def split: sum.splits if_splits prod.splits)

lemma train_batch_error:
  "train_batch lf opt ag sz k b w = Inl e \<Longrightarrow> spec_train_step lf opt ag (model w) b = Inl e"
  by (auto simp: train_batch_def spec_train_step_def Let_def split: sum.splits if_splits prod.splits)

lemma train_loop_spec:
  "fst (train_loop lf opt ag sz k bs w) = fst (spec_train lf opt ag bs (model w)) \<and>
   model (snd (train_loop lf opt ag sz k bs w)) = snd (spec_train lf opt ag bs (model w))"
proof (induction bs arbitrary: k w)
  case Nil
  show ?case by simp
next
  case (Cons b bs)
  show ?case
  proof (cases "train_batch lf opt ag sz k b w")
    case (Inl e)
    then show ?thesis
      using train_batch_error [OF Inl] by simp
  next
    case (Inr w')
    then show ?thesis
      using train_batch_model [OF Inr] Cons.IH [of "Suc k" w'] by simp
  qed
qed

subsection \<open>Progress lines\<close>

lemma train_loop_snoc:
  "train_loop lf opt ag sz k (bs @ [b]) w =
     (case train_loop lf opt ag sz k bs w of
        (Some e, w1) \<Rightarrow> (Some e, w1)
      | (None, w1) \<Rightarrow>
          (case train_batch lf opt ag sz (k + length bs) b w1 of
             Inl e \<Rightarrow> (Some e, w1)
           | Inr w2 \<Rightarrow> (None, w2)))"
  by (induction bs arbitrary: k w) (auto split: sum.splits prod.splits option.splits)

lemma collate_Inr:
  "collate b = Inr (X, y) \<Longrightarrow> len_tensor X = length b \<and> y = map snd b"
  by (auto simp: collate_def len_tensor_def split: list.splits if_splits)

lemma train_batch_console:
  assumes "train_batch lf opt ag sz k b w = Inr w'"
  shows "console w' = console w @
     (if k mod 100 = 0
      then [TrainProgress (batch_loss lf (model w) b) ((k + 1) * length b) sz] else [])"
proof -
  from assms obtain X y pred loss where
    c: "collate b = Inr (X, y)" and f: "forward (model w) X = Inr pred"
    and l: "lf pred y = Inr loss"
    by (auto simp: train_batch_def split: sum.splits prod.splits)
  have len: "len_tensor X = length b"
    using collate_Inr [OF c] by simp
  have bl: "batch_loss lf (model w) b = loss"
    by (simp add: batch_loss_def c f l)
  show ?thesis
    using assms by (auto simp: train_batch_def c f l len bl Let_def split: if_splits)
qed

lemma train_loop_console:
  "fst (train_loop lf opt ag sz 0 bs w) = None \<Longrightarrow>
   console (snd (train_loop lf opt ag sz 0 bs w)) =
     console w @ map (progress_line lf opt ag sz bs (model w))
                     (filter (\<lambda>i. i mod 100 = 0) [0..<length bs])"
proof (induction bs rule: rev_induct)
  case Nil
  show ?case by simp
next
  case (snoc b bs)
  obtain r w1 where tl: "train_loop lf opt ag sz 0 bs w = (r, w1)"
    by (cases "train_loop lf opt ag sz 0 bs w")
  from snoc.prems have r: "r = None"
    by (auto simp: train_loop_snoc tl split: option.splits sum.splits)
  from snoc.prems obtain w2 where tb: "train_batch lf opt ag sz (length bs) b w1 = Inr w2"
    by (auto simp: train_loop_snoc tl r split: sum.splits)
  have res: "train_loop lf opt ag sz 0 (bs @ [b]) w = (None, w2)"
    by (simp add: train_loop_snoc tl r tb)
  have m1: "model w1 = snd (spec_train lf opt ag bs (model w))"
    using train_loop_spec [of lf opt ag sz 0 bs w] by (simp add: tl)
  have c1: "console w1 = console w @ map (progress_line lf opt ag sz bs (model w))
                     (filter (\<lambda>i. i mod 100 = 0) [0..<length bs])"
    using snoc.IH by (simp add: tl r)
  have old: "map (progress_line lf opt ag sz (bs @ [b]) (model w))
                 (filter (\<lambda>i. i mod 100 = 0) [0..<length bs]) =
             map (progress_line lf opt ag sz bs (model w))
                 (filter (\<lambda>i. i mod 100 = 0) [0..<length bs])"
    by (rule map_cong) (auto simp: progress_line_def nth_append)
  have new: "progress_line lf opt ag sz (bs @ [b]) (model w) (length bs) =
             TrainProgress (batch_loss lf (model w1) b) ((length bs + 1) * length b) sz"
    by (simp add: progress_line_def m1)
  have "console w2 = console w1 @
     (if length bs mod 100 = 0
      then [TrainProgress (batch_loss lf (model w1) b) ((length bs + 1) * length b) sz] else [])"
    by (rule train_batch_console [OF tb])
  then show ?case
    by (simp add: res c1 old new)
qed

subsection \<open>Ranges of floating-point values\<close>











lemma foldl_fadd_NaN [simp]: "foldl (fadd M) NaN xs = NaN"
  by (induction xs) simp_all

lemma fadd_NaN_right [simp]: "fadd M a NaN = NaN"
  by (cases a) simp_all



lemma fsub_NaN_left [simp]: "fsub M NaN b = NaN"
  by (simp add: fsub_def)





lemma flt_irrefl [simp]: "\<not> flt a a"
  by (cases a) simp_all



subsection \<open>Loss and accuracy\<close>













lemma CrossEntropyLoss_Inr:
  assumes "shape pred = [n, c]" and "length (data pred) = n * c" and "length y = n"
    and "\<forall>t \<in> set y. t < c"
  shows "\<exists>l. CrossEntropyLoss pred y = Inr l"
  using assms by (auto simp: CrossEntropyLoss_def)

lemma collate_ok:
  assumes "b \<noteq> []" and "data_ok b"
  shows "collate b = Inr (Tensor [length b, 1, 28, 28] (concat (map (data \<circ> fst) b)), map snd b)"
proof -
  from assms(1) obtain s b' where b: "b = s # b'" by (cases b) simp_all
  have "\<forall>t \<in> set b. shape (fst t) = [1, 28, 28]"
    using assms(2) by (auto simp: data_ok_def)
  then show ?thesis
    by (simp add: collate_def b)
qed





subsection \<open>The test pass succeeds on well-formed data\<close>

lemma batch_forward_ok:
  assumes "nn_ok m" and "b \<noteq> []" and "data_ok b"
  shows "\<exists>d. collate b = Inr (Tensor [length b, 1, 28, 28] (concat (map (data \<circ> fst) b)), map snd b) \<and>
             forward m (Tensor [length b, 1, 28, 28] (concat (map (data \<circ> fst) b)))
               = Inr (Tensor [length b, 10] d) \<and>
             length d = length b * 10 \<and>
             (\<exists>l. CrossEntropyLoss (Tensor [length b, 10] d) (map snd b) = Inr l)"
proof -
  let ?X = "Tensor [length b, 1, 28, 28] (concat (map (data \<circ> fst) b))"
  have c: "collate b = Inr (?X, map snd b)"
    using assms(2,3) by (rule collate_ok)
  obtain d where f: "forward m ?X = Inr (Tensor [length b, 10] d)" and len: "length d = length b * 10"
    using forward_nn_ok [of m ?X "length b" "[1, 28, 28]"] assms(1) by auto
  have lab: "\<forall>t \<in> set (map snd b). t < 10"
    using assms(3) by (auto simp: data_ok_def)
  have "\<exists>l. CrossEntropyLoss (Tensor [length b, 10] d) (map snd b) = Inr l"
    using assms(2) lab by (intro CrossEntropyLoss_Inr [where n = "length b" and c = 10]) (simp_all add: len)
  then show ?thesis
    using c f len by blast
qed

lemma test_loop_ok:
  assumes "nn_ok m" and "\<And>b. b \<in> set bs \<Longrightarrow> b \<noteq> [] \<and> data_ok b"
  shows "\<exists>r. test_loop m CrossEntropyLoss bs acc = Inr r"
  using assms(2)
proof (induction bs arbitrary: acc)
  case Nil
  show ?case by simp
next
  case (Cons b bs)
  obtain sm c where acc: "acc = (sm, c)" by (cases acc)
  have b: "b \<noteq> []" "data_ok b"
    using Cons.prems [of b] by simp_all
  obtain d l where
    c: "collate b = Inr (Tensor [length b, 1, 28, 28] (concat (map (data \<circ> fst) b)), map snd b)"
    and f: "forward m (Tensor [length b, 1, 28, 28] (concat (map (data \<circ> fst) b)))
               = Inr (Tensor [length b, 10] d)"
    and l: "CrossEntropyLoss (Tensor [length b, 10] d) (map snd b) = Inr l"
    using batch_forward_ok [OF assms(1) b] by blast
  have a: "argmax1 (Tensor [length b, 10] d) = Inr (map argmax_list (rows (length b) 10 d))"
    by (simp add: argmax1_def)
  have "\<exists>r. test_loop m CrossEntropyLoss bs
          (fadd float64_max sm l,
           c + real (count_correct (map argmax_list (rows (length b) 10 d)) (map snd b))) = Inr r"
    by (rule Cons.IH) (simp add: Cons.prems)
  then show ?case
    by (simp only: acc test_loop.simps c f l a sum.case prod.case)
qed

lemma batches_ok:
  assumes "data_ok (dataset dl)" and "b \<in> set (batches dl)"
  shows "b \<noteq> [] \<and> data_ok b"
proof -
  have "set b \<subseteq> set (dataset dl)"
    using assms(2) unfolding batches_def by (rule batches_of_subset)
  then have "data_ok b"
    using assms(1) by (auto simp: data_ok_def)
  moreover have "b \<noteq> []"
    using assms(2) unfolding batches_def by (rule batches_of_nonempty)
  ultimately show ?thesis by simp
qed

lemma len_dataloader_pos:
  assumes "dataset dl \<noteq> []" and "0 < loader_batch_size dl"
  shows "0 < len_dataloader dl"
proof -
  have "loader_batch_size dl \<le> length (dataset dl) + loader_batch_size dl - 1"
    using assms(1) by (cases "dataset dl") simp_all
  then have "1 \<le> (length (dataset dl) + loader_batch_size dl - 1) div loader_batch_size dl"
    using assms(2) by (simp add: div_greater_zero_iff Suc_le_eq)
  then show ?thesis
    by (simp add: len_dataloader_def)
qed

lemma test_metrics_ok:
  assumes "nn_ok m" and "data_ok (dataset dl)" and "dataset dl \<noteq> []"
    and "0 < loader_batch_size dl"
  shows "\<exists>r. test_metrics dl m CrossEntropyLoss = Inr r"
proof -
  have "nn_ok (eval_mode m)" using assms(1) by simp
  then obtain r where "test_loop (eval_mode m) CrossEntropyLoss (batches dl) (Finite 0, 0) = Inr r"
    using test_loop_ok [of "eval_mode m" "batches dl" "(Finite 0, 0)"] batches_ok [OF assms(2)] by blast
  moreover have "len_dataloader dl \<noteq> 0"
    using len_dataloader_pos [OF assms(3,4)] by simp
  ultimately show ?thesis
    using assms(3) by (cases r) (simp add: test_metrics_def Let_def)
qed

subsection \<open>The test pass depends on the parameters only\<close>

lemma module_forward_cong:
  "module_data mo = module_data mo' \<Longrightarrow> module_forward mo x = module_forward mo' x"
  by (cases mo; cases mo') simp_all

lemma sequential_cong_data:
  "map module_data ms = map module_data ms' \<Longrightarrow> sequential ms x = sequential ms' x"
proof (induction ms arbitrary: ms' x)
  case Nil
  then show ?case by simp
next
  case (Cons mo ms)
  then obtain mo' ms'' where ms': "ms' = mo' # ms''" by (cases ms') simp_all
  from Cons.prems have hd: "module_data mo = module_data mo'"
    and tl: "map module_data ms = map module_data ms''"
    by (simp_all add: ms')
  show ?case
    using module_forward_cong [OF hd, of x] Cons.IH [OF tl]
    by (simp add: ms' split: sum.splits)
qed

lemma forward_cong_parameters:
  "model_parameters m = model_parameters m' \<Longrightarrow> forward m x = forward m' x"
  using sequential_cong_data [of "linear_relu_stack m" "linear_relu_stack m'"]
  by (simp add: forward_def model_parameters_def split: sum.splits)

lemma test_loop_cong:
  "(\<And>x. forward m x = forward m' x) \<Longrightarrow> test_loop m lf bs acc = test_loop m' lf bs acc"
proof (induction bs arbitrary: acc)
  case Nil
  show ?case by simp
next
  case (Cons b bs)
  obtain sm c where acc: "acc = (sm, c)" by (cases acc)
  show ?case
    using Cons by (simp add: acc split: sum.splits prod.splits)
qed

lemma model_parameters_eval_mode [simp]: "model_parameters (eval_mode m) = model_parameters m"
  by (simp add: model_parameters_def eval_mode_def)

lemma test_metrics_cong:
  assumes "model_parameters m = model_parameters m'"
  shows "test_metrics dl m lf = test_metrics dl m' lf"
proof -
  have "forward (eval_mode m) x = forward (eval_mode m') x" for x
    using forward_cong_parameters [OF assms] by simp
  then have "test_loop (eval_mode m) lf (batches dl) (Finite 0, 0) = test_loop (eval_mode m') lf (batches dl) (Finite 0, 0)"
    by (rule test_loop_cong)
  then show ?thesis
    by (simp add: test_metrics_def)
qed

subsection \<open>The training pass keeps the shape of the network and succeeds\<close>

lemma nn_ok_stack_update:
  assumes "nn_ok m" and "length ms' = length (linear_relu_stack m)"
    and "\<And>i. i < length ms' \<Longrightarrow> linear_relu_stack m ! i = ReLU \<Longrightarrow> ms' ! i = ReLU"
    and "\<And>i a b. i < length ms' \<Longrightarrow> linear_ok a b (linear_relu_stack m ! i)
           \<Longrightarrow> linear_ok a b (ms' ! i)"
  shows "nn_ok (m\<lparr>linear_relu_stack := ms'\<rparr>)"
proof -
  from assms(1) have len: "length (linear_relu_stack m) = 5"
    by (simp add: nn_ok_def)
  then have l5: "length ms' = 5" using assms(2) by simp
  have "linear_ok 784 512 (ms' ! 0)" "ms' ! 1 = ReLU" "linear_ok 512 512 (ms' ! 2)"
    "ms' ! 3 = ReLU" "linear_ok 512 10 (ms' ! 4)"
    using assms(1) assms(3) [of 0] assms(3) [of 1] assms(3) [of 3]
      assms(4) [of 0] assms(4) [of 2] assms(4) [of 4] l5
    by (simp_all add: nn_ok_def)
  then show ?thesis
    by (simp add: nn_ok_def l5)
qed

lemma nn_ok_map_parameters:
  assumes "nn_ok m" and "\<And>s p. param_ok s p \<Longrightarrow> param_ok s (f p)"
  shows "nn_ok (m\<lparr>linear_relu_stack := map_parameters f (linear_relu_stack m)\<rparr>)"
proof (rule nn_ok_stack_update [OF assms(1)])
  show "length (map_parameters f (linear_relu_stack m)) = length (linear_relu_stack m)"
    by (simp add: map_parameters_def)
next
  fix i
  assume "i < length (map_parameters f (linear_relu_stack m))" "linear_relu_stack m ! i = ReLU"
  then show "map_parameters f (linear_relu_stack m) ! i = ReLU"
    by (simp add: map_parameters_def)
next
  fix i a b
  assume i: "i < length (map_parameters f (linear_relu_stack m))"
    and ok: "linear_ok a b (linear_relu_stack m ! i)"
  from ok obtain w c where mo: "linear_relu_stack m ! i = Linear w c"
    by (cases "linear_relu_stack m ! i") simp_all
  show "linear_ok a b (map_parameters f (linear_relu_stack m) ! i)"
    using i ok assms(2) by (simp add: map_parameters_def mo)
qed

lemma param_ok_sgd_update: "param_ok s p \<Longrightarrow> param_ok s (sgd_update a p)"
  by (simp add: param_ok_def sgd_update_def)

lemma param_ok_clear_grad: "param_ok s p \<Longrightarrow> param_ok s (clear_grad p)"
  by (simp add: param_ok_def clear_grad_def zeros_like_def)

lemma param_ok_accumulate:
  "param_ok s p \<Longrightarrow> length (data g) = length (data (param_data p)) \<Longrightarrow> param_ok s (accumulate p g)"
  by (simp add: param_ok_def accumulate_def)

lemma nn_ok_optimizer_step: "nn_ok m \<Longrightarrow> nn_ok (optimizer_step opt m)"
  unfolding optimizer_step_def by (erule nn_ok_map_parameters) (rule param_ok_sgd_update)

lemma nn_ok_optimizer_zero_grad: "nn_ok m \<Longrightarrow> nn_ok (optimizer_zero_grad m)"
  unfolding optimizer_zero_grad_def by (erule nn_ok_map_parameters) (rule param_ok_clear_grad)

lemma nn_ok_backward:
  assumes "nn_ok m" and "autograd_ok ag"
  shows "nn_ok (backward ag lf X y m)"
  unfolding backward_def
proof (rule nn_ok_stack_update [OF assms(1)])
  let ?ms = "linear_relu_stack m"
  let ?g = "\<lambda>i mo. case mo of
                 Linear w b \<Rightarrow> Linear (accumulate w (fst (ag lf ?ms X y i)))
                                       (accumulate b (snd (ag lf ?ms X y i)))
               | ReLU \<Rightarrow> ReLU"
  show "length (map2 ?g [0..<length ?ms] ?ms) = length ?ms"
    by simp
  have nth: "map2 ?g [0..<length ?ms] ?ms ! i = ?g i (?ms ! i)" if "i < length ?ms" for i
    using that by simp
  {
    fix i
    assume "i < length (map2 ?g [0..<length ?ms] ?ms)" "?ms ! i = ReLU"
    then show "map2 ?g [0..<length ?ms] ?ms ! i = ReLU"
      by (simp add: nth)
  next
    fix i a b
    assume i: "i < length (map2 ?g [0..<length ?ms] ?ms)" and ok: "linear_ok a b (?ms ! i)"
    from ok obtain w c where mo: "?ms ! i = Linear w c"
      by (cases "?ms ! i") simp_all
    from i have i': "i < length ?ms" by simp
    have len: "length (data (fst (ag lf ?ms X y i))) = length (data (param_data w))"
      "length (data (snd (ag lf ?ms X y i))) = length (data (param_data c))"
      using assms(2) i' mo unfolding autograd_ok_def by blast+
    have "linear_ok a b (?g i (?ms ! i))"
      using ok by (simp add: mo param_ok_accumulate len)
    then show "linear_ok a b (map2 ?g [0..<length ?ms] ?ms ! i)"
      by (simp only: nth [OF i'])
  }
qed

lemma train_batch_ok:
  assumes "nn_ok (model w)" and "b \<noteq> []" and "data_ok b" and "autograd_ok ag"
  shows "\<exists>w'. train_batch CrossEntropyLoss opt ag sz k b w = Inr w' \<and> nn_ok (model w')"
proof -
  let ?X = "Tensor [length b, 1, 28, 28] (concat (map (data \<circ> fst) b))"
  obtain d l where
    c: "collate b = Inr (?X, map snd b)"
    and f: "forward (model w) ?X = Inr (Tensor [length b, 10] d)"
    and l: "CrossEntropyLoss (Tensor [length b, 10] d) (map snd b) = Inr l"
    using batch_forward_ok [OF assms(1,2,3)] by blast
  let ?m = "optimizer_zero_grad (optimizer_step opt
              (backward ag CrossEntropyLoss ?X (map snd b) (model w)))"
  have ok: "nn_ok ?m"
    by (intro nn_ok_optimizer_zero_grad nn_ok_optimizer_step nn_ok_backward assms)
  have "train_batch CrossEntropyLoss opt ag sz k b w =
      (if k mod 100 = 0
       then Inr (print (TrainProgress l ((k + 1) * len_tensor ?X) sz) (w\<lparr>model := ?m\<rparr>))
       else Inr (w\<lparr>model := ?m\<rparr>))"
    by (simp only: train_batch_def c f l sum.case prod.case Let_def)
  then show ?thesis
    using ok by (cases "k mod 100 = 0") simp_all
qed

lemma train_loop_ok:
  assumes "autograd_ok ag" and "\<And>b. b \<in> set bs \<Longrightarrow> b \<noteq> [] \<and> data_ok b" and "nn_ok (model w)"
  shows "fst (train_loop CrossEntropyLoss opt ag sz k bs w) = None \<and>
         nn_ok (model (snd (train_loop CrossEntropyLoss opt ag sz k bs w)))"
  using assms(2,3)
proof (induction bs arbitrary: k w)
  case Nil
  then show ?case by simp
next
  case (Cons b bs)
  have b: "b \<noteq> []" "data_ok b" using Cons.prems(1) [of b] by simp_all
  obtain w' where tb: "train_batch CrossEntropyLoss opt ag sz k b w = Inr w'"
    and ok: "nn_ok (model w')"
    using train_batch_ok [OF Cons.prems(2) b assms(1)] by blast
  show ?case
    using Cons.IH [of w' "Suc k"] Cons.prems(1) ok by (simp add: tb)
qed

lemma train_ok:
  assumes "autograd_ok ag" and "data_ok (dataset dl)" and "nn_ok (model w)"
  shows "fst (train dl CrossEntropyLoss opt ag w) = None \<and>
         nn_ok (model (snd (train dl CrossEntropyLoss opt ag w)))"
  unfolding train_def
  by (rule train_loop_ok [OF assms(1)]) (simp_all add: batches_ok [OF assms(2)] assms(3))

lemma test_ok:
  assumes "nn_ok (model w)" and "data_ok (dataset dl)" and "dataset dl \<noteq> []"
    and "0 < loader_batch_size dl"
  shows "fst (test dl CrossEntropyLoss w) = None"
proof -
  obtain r where "test_metrics dl (model w) CrossEntropyLoss = Inr r"
    using test_metrics_ok [OF assms] by blast
  then show ?thesis
    by (cases r) (simp add: test_def Let_def)
qed

lemma model_test [simp]: "model (snd (test dl lf w)) = eval_mode (model w)"
  by (simp add: test_def Let_def split: sum.splits prod.splits)

subsection \<open>Gradients after a batch\<close>

text \<open>
  What one batch does to a parameter: the backward pass adds the derivative \<open>g\<close> to the
  accumulator, the step subtracts the accumulator times the learning rate \<open>a\<close>, and the
  reset leaves zeros.
\<close>

lemma batch_step_parameter:
  "clear_grad (sgd_update a (accumulate p g)) =
     Parameter
       (Tensor (shape (param_data p))
          (map2 (\<lambda>v d. fsub float32_max v (fmul float32_max (Finite a) d))
                (data (param_data p)) (map2 (fadd float32_max) (data (grad p)) (data g))))
       (Tensor (shape (grad p))
          (replicate (length (map2 (fadd float32_max) (data (grad p)) (data g))) (Finite 0)))"
  by (simp add: clear_grad_def sgd_update_def accumulate_def zeros_like_def)

lemma grads_zero_optimizer_zero_grad: "grads_zero (optimizer_zero_grad m)"
proof -
  have "module_grads_zero (case mo of Linear w b \<Rightarrow> Linear (clear_grad w) (clear_grad b) | ReLU \<Rightarrow> ReLU)"
    for mo
    by (cases mo) (simp_all add: clear_grad_def zeros_like_def)
  then show ?thesis
    by (auto simp: grads_zero_def optimizer_zero_grad_def map_parameters_def)
qed

lemma spec_train_step_grads_zero:
  "spec_train_step lf opt ag m b = Inr m' \<Longrightarrow> grads_zero m'"
  by (auto simp: spec_train_step_def grads_zero_optimizer_zero_grad split: sum.splits prod.splits)

lemma spec_train_grads_zero:
  "spec_train lf opt ag bs m = (None, m') \<Longrightarrow> bs \<noteq> [] \<Longrightarrow> grads_zero m'"
proof (induction bs arbitrary: m)
  case Nil
  then show ?case by simp
next
  case (Cons b bs)
  then obtain m1 where st: "spec_train_step lf opt ag m b = Inr m1"
    and rest: "spec_train lf opt ag bs m1 = (None, m')"
    by (auto split: sum.splits)
  show ?case
  proof (cases "bs = []")
    case True
    then show ?thesis
      using rest spec_train_step_grads_zero [OF st] by simp
  next
    case False
    then show ?thesis
      using Cons.IH [OF rest] by simp
  qed
qed

subsection \<open>Epochs\<close>

lemma train_model:
  "model (snd (train dl lf opt ag w)) = snd (spec_train lf opt ag (batches dl) (train_mode (model w)))"
  using train_loop_spec [of lf opt ag "length (dataset dl)" 0 "batches dl"
      "w\<lparr>model := train_mode (model w)\<rparr>"]
  by (simp add: train_def)

lemma train_console:
  assumes "fst (train dl lf opt ag w) = None"
  shows "console (snd (train dl lf opt ag w)) =
     console w @
     map (progress_line lf opt ag (length (dataset dl)) (batches dl) (train_mode (model w)))
         (filter (\<lambda>i. i mod 100 = 0) [0..<length (batches dl)])"
  using train_loop_console [of lf opt ag "length (dataset dl)" "batches dl"
      "w\<lparr>model := train_mode (model w)\<rparr>"] assms
  by (simp add: train_def)

lemma test_console:
  "console (snd (test dl lf w)) = console w @
     (case test_metrics dl (model w) lf of
        Inl e \<Rightarrow> []
      | Inr (test_loss, correct) \<Rightarrow> [TestError (100 * correct) test_loss])"
  by (simp add: test_def Let_def split: sum.splits prod.splits)

lemma epochs_loop_snoc:
  "epochs_loop train_dl test_dl lf opt ag (ts @ [t]) w =
     (case epochs_loop train_dl test_dl lf opt ag ts w of
        (Some e, w1) \<Rightarrow> (Some e, w1)
      | (None, w1) \<Rightarrow> epochs_loop train_dl test_dl lf opt ag [t] w1)"
  by (induction ts arbitrary: w) (auto split: sum.splits prod.splits option.splits)

lemma epoch_body:
  assumes "epochs_loop train_dl test_dl lf opt ag [t] w = (None, w')"
  shows "model w' = spec_epoch lf opt ag train_dl (model w) \<and>
         console w' = console w @ epoch_lines lf opt ag train_dl test_dl t (model w)"
proof -
  let ?w0 = "print (EpochHeader (Suc t)) w"
  obtain r1 w1 where tr: "train train_dl lf opt ag ?w0 = (r1, w1)"
    by (cases "train train_dl lf opt ag ?w0")
  from assms have r1: "r1 = None"
    by (auto simp: tr split: option.splits)
  obtain r2 w2 where te: "test test_dl lf w1 = (r2, w2)"
    by (cases "test test_dl lf w1")
  from assms have r2: "r2 = None" and w': "w' = w2"
    by (auto simp: tr r1 te split: option.splits)
  have m1: "model w1 = snd (spec_train lf opt ag (batches train_dl) (train_mode (model w)))"
    using train_model [of train_dl lf opt ag ?w0] by (simp add: tr)
  have c1: "console w1 = console w @ [EpochHeader (Suc t)] @
     map (progress_line lf opt ag (length (dataset train_dl)) (batches train_dl) (train_mode (model w)))
         (filter (\<lambda>i. i mod 100 = 0) [0..<length (batches train_dl)])"
    using train_console [of train_dl lf opt ag ?w0] by (simp add: tr r1)
  have m2: "model w2 = eval_mode (model w1)"
    using model_test [of test_dl lf w1] by (simp add: te)
  have c2: "console w2 = console w1 @
     (case test_metrics test_dl (model w1) lf of
        Inl e \<Rightarrow> []
      | Inr (test_loss, correct) \<Rightarrow> [TestError (100 * correct) test_loss])"
    using test_console [of test_dl lf w1] by (simp add: te)
  show ?thesis
    by (simp add: w' m2 c2 m1 c1 spec_epoch_def epoch_lines_def)
qed

lemma epochs_loop_upt:
  assumes "epochs_loop train_dl test_dl lf opt ag [0..<n] w = (None, w')"
  shows "model w' = (spec_epoch lf opt ag train_dl ^^ n) (model w) \<and>
         console w' = console w @
           concat (map (\<lambda>t. epoch_lines lf opt ag train_dl test_dl t
                                ((spec_epoch lf opt ag train_dl ^^ t) (model w))) [0..<n])"
  using assms
proof (induction n arbitrary: w')
  case 0
  then show ?case by simp
next
  case (Suc n)
  obtain r w1 where l: "epochs_loop train_dl test_dl lf opt ag [0..<n] w = (r, w1)"
    by (cases "epochs_loop train_dl test_dl lf opt ag [0..<n] w")
  from Suc.prems have r: "r = None"
    by (auto simp: epochs_loop_snoc l split: option.splits)
  from Suc.prems have body: "epochs_loop train_dl test_dl lf opt ag [n] w1 = (None, w')"
    by (simp add: epochs_loop_snoc l r)
  have ih: "model w1 = (spec_epoch lf opt ag train_dl ^^ n) (model w) \<and>
         console w1 = console w @
           concat (map (\<lambda>t. epoch_lines lf opt ag train_dl test_dl t
                                ((spec_epoch lf opt ag train_dl ^^ t) (model w))) [0..<n])"
    using Suc.IH [of w1] by (simp add: l r)
  show ?case
    using epoch_body [OF body] ih by simp
qed

lemma run_epochs_spec:
  assumes "fst (run_epochs n train_dl test_dl lf opt ag w) = None"
  shows "model (snd (run_epochs n train_dl test_dl lf opt ag w)) =
           (spec_epoch lf opt ag train_dl ^^ n) (model w) \<and>
         console (snd (run_epochs n train_dl test_dl lf opt ag w)) =
           console w @
           concat (map (\<lambda>t. epoch_lines lf opt ag train_dl test_dl t
                                ((spec_epoch lf opt ag train_dl ^^ t) (model w))) [0..<n]) @
           [Done]"
proof -
  obtain r w1 where l: "epochs_loop train_dl test_dl lf opt ag [0..<n] w = (r, w1)"
    by (cases "epochs_loop train_dl test_dl lf opt ag [0..<n] w")
  from assms have r: "r = None"
    by (auto simp: run_epochs_def l split: option.splits)
  have res: "run_epochs n train_dl test_dl lf opt ag w = (None, print Done w1)"
    by (simp add: run_epochs_def l r)
  show ?thesis
    using epochs_loop_upt [of train_dl test_dl lf opt ag n w w1] l r
    by (simp add: res)
qed

lemma test_None_metrics:
  "fst (test dl lf w) = None \<Longrightarrow> \<exists>test_loss correct. test_metrics dl (model w) lf = Inr (test_loss, correct)"
  by (auto simp: test_def Let_def split: sum.splits prod.splits)

lemma epoch_body_reports:
  assumes "epochs_loop train_dl test_dl lf opt ag [t] w = (None, w')"
  shows "\<exists>test_loss correct.
           test_metrics test_dl (snd (spec_train lf opt ag (batches train_dl) (train_mode (model w)))) lf
             = Inr (test_loss, correct)"
proof -
  let ?w0 = "print (EpochHeader (Suc t)) w"
  obtain r1 w1 where tr: "train train_dl lf opt ag ?w0 = (r1, w1)"
    by (cases "train train_dl lf opt ag ?w0")
  from assms have r1: "r1 = None"
    by (auto simp: tr split: option.splits)
  obtain r2 w2 where te: "test test_dl lf w1 = (r2, w2)"
    by (cases "test test_dl lf w1")
  from assms have r2: "r2 = None"
    by (auto simp: tr r1 te split: option.splits)
  have m1: "model w1 = snd (spec_train lf opt ag (batches train_dl) (train_mode (model w)))"
    using train_model [of train_dl lf opt ag ?w0] by (simp add: tr)
  show ?thesis
    using test_None_metrics [of test_dl lf w1] by (simp add: te r2 m1)
qed

lemma epochs_loop_reports:
  assumes "epochs_loop train_dl test_dl lf opt ag [0..<n] w = (None, w')" and "t < n"
  shows "\<exists>test_loss correct.
           test_metrics test_dl
             (snd (spec_train lf opt ag (batches train_dl)
                     (train_mode ((spec_epoch lf opt ag train_dl ^^ t) (model w))))) lf
             = Inr (test_loss, correct)"
  using assms
proof (induction n arbitrary: w')
  case 0
  then show ?case by simp
next
  case (Suc n)
  obtain r w1 where l: "epochs_loop train_dl test_dl lf opt ag [0..<n] w = (r, w1)"
    by (cases "epochs_loop train_dl test_dl lf opt ag [0..<n] w")
  from Suc.prems(1) have r: "r = None"
    by (auto simp: epochs_loop_snoc l split: option.splits)
  from Suc.prems(1) have body: "epochs_loop train_dl test_dl lf opt ag [n] w1 = (None, w')"
    by (simp add: epochs_loop_snoc l r)
  have l': "epochs_loop train_dl test_dl lf opt ag [0..<n] w = (None, w1)"
    by (simp add: l r)
  show ?case
  proof (cases "t = n")
    case True
    have "model w1 = (spec_epoch lf opt ag train_dl ^^ n) (model w)"
      using epochs_loop_upt [OF l'] by simp
    then show ?thesis
      using epoch_body_reports [OF body] by (simp add: True)
  next
    case False
    then have "t < n" using Suc.prems(2) by simp
    then show ?thesis
      using Suc.IH [OF l'] by simp
  qed
qed

lemma run_epochs_reports:
  assumes "fst (run_epochs n train_dl test_dl lf opt ag w) = None" and "t < n"
  shows "\<exists>test_loss correct.
           test_metrics test_dl
             (snd (spec_train lf opt ag (batches train_dl)
                     (train_mode ((spec_epoch lf opt ag train_dl ^^ t) (model w))))) lf
             = Inr (test_loss, correct)"
proof -
  obtain r w1 where l: "epochs_loop train_dl test_dl lf opt ag [0..<n] w = (r, w1)"
    by (cases "epochs_loop train_dl test_dl lf opt ag [0..<n] w")
  from assms(1) have r: "r = None"
    by (auto simp: run_epochs_def l split: option.splits)
  show ?thesis
    using epochs_loop_reports [of train_dl test_dl lf opt ag n w w1 t] l r assms(2) by simp
qed

lemma epochs_loop_ok:
  assumes "autograd_ok ag" and "data_ok (dataset train_dl)" and "data_ok (dataset test_dl)"
    and "dataset test_dl \<noteq> []" and "0 < loader_batch_size test_dl" and "nn_ok (model w)"
  shows "fst (epochs_loop train_dl test_dl CrossEntropyLoss opt ag ts w) = None \<and>
         nn_ok (model (snd (epochs_loop train_dl test_dl CrossEntropyLoss opt ag ts w)))"
  using assms(6)
proof (induction ts arbitrary: w)
  case Nil
  then show ?case by simp
next
  case (Cons t ts)
  let ?w0 = "print (EpochHeader (Suc t)) w"
  obtain r1 w1 where tr: "train train_dl CrossEntropyLoss opt ag ?w0 = (r1, w1)"
    by (cases "train train_dl CrossEntropyLoss opt ag ?w0")
  have "nn_ok (model ?w0)" using Cons.prems by simp
  from train_ok [OF assms(1,2) this, of opt] have r1: "r1 = None" and ok1: "nn_ok (model w1)"
    by (simp_all add: tr)
  obtain r2 w2 where te: "test test_dl CrossEntropyLoss w1 = (r2, w2)"
    by (cases "test test_dl CrossEntropyLoss w1")
  have r2: "r2 = None"
    using test_ok [OF ok1 assms(3,4,5)] by (simp add: te)
  have ok2: "nn_ok (model w2)"
    using model_test [of test_dl CrossEntropyLoss w1] ok1 by (simp add: te)
  show ?case
    using Cons.IH [OF ok2] by (simp add: tr r1 te r2)
qed

lemma run_epochs_ok:
  assumes "autograd_ok ag" and "data_ok (dataset train_dl)" and "data_ok (dataset test_dl)"
    and "dataset test_dl \<noteq> []" and "0 < loader_batch_size test_dl" and "nn_ok (model w)"
  shows "fst (run_epochs n train_dl test_dl CrossEntropyLoss opt ag w) = None"
proof -
  obtain r w1 where l: "epochs_loop train_dl test_dl CrossEntropyLoss opt ag [0..<n] w = (r, w1)"
    by (cases "epochs_loop train_dl test_dl CrossEntropyLoss opt ag [0..<n] w")
  have "r = None"
    using epochs_loop_ok [OF assms, of opt "[0..<n]"] by (simp add: l)
  then show ?thesis
    by (simp add: run_epochs_def l)
qed

subsection \<open>Facts about the example inputs\<close>


lemma autograd_ok_zero_autograd: "autograd_ok zero_autograd"
  by (simp add: autograd_ok_def zero_autograd_def zeros_like_def)

lemma data_ok_blank_dataset: "data_ok (blank_dataset n)"
  by (simp add: data_ok_def blank_dataset_def)

lemma nn_ok_initial_world: "nn_ok (model initial_world)"
  by (simp add: initial_world_def nn_ok_NeuralNetwork_new)

lemma length_batches:
  "0 < loader_batch_size dl \<Longrightarrow>
   length (batches dl) = length (dataset dl) div loader_batch_size dl +
     (if length (dataset dl) mod loader_batch_size dl = 0 then 0 else 1)"
proof -
  assume "0 < loader_batch_size dl"
  then have "length (map length (batches dl)) = length (dataset dl) div loader_batch_size dl +
     (if length (dataset dl) mod loader_batch_size dl = 0 then 0 else 1)"
    unfolding batches_def by (subst map_length_batches_of) simp_all
  then show ?thesis by simp
qed

lemma length_batches_60000:
  "length (batches \<lparr>dataset = blank_dataset 60000, loader_batch_size = batch_size\<rparr>) = 938"
  by (simp add: length_batches batch_size_def blank_dataset_def)



lemma div_block_last: "0 < (k::nat) \<Longrightarrow> (q * k + (k - 1)) div k = q"
  by (metis add_cancel_left_right diff_less div_less div_mult_self3
    less_numeral_extra(1) not_gr_zero)

lemma div_block_inner: "0 < (r::nat) \<Longrightarrow> r < k \<Longrightarrow> (Suc d * k + (r - 1)) div k = Suc d"
  by (metis Euclidean_Rings.div_eq_0_iff One_nat_def Suc_lessD Suc_pred
    add.commute diff_0_eq_0 div_mult_self3 neq0_conv plus_nat.add_0
    zero_less_diff)

lemma filter_multiples:
  assumes "0 < k"
  shows "filter (\<lambda>i. i mod k = 0) [0..<n] = map (\<lambda>j. j * k) [0..<(n + k - 1) div k]"
proof (induction n)
  case 0
  then show ?case using assms by simp
next
  case (Suc n)
  have next_div: "(n + k) div k = Suc (n div k)"
    using assms by (simp add: div_add_self2)
  show ?case
  proof (cases "n mod k = 0")
    case True
    then have q: "n = (n div k) * k" using div_mult_mod_eq [of n k] by simp
    have "n + k - 1 = (n div k) * k + (k - 1)" using assms q by simp
    then have "(n + k - 1) div k = n div k"
      using div_block_last [OF assms, of "n div k"] by simp
    moreover have "map (\<lambda>j. j * k) [0..<n div k] @ [n] = map (\<lambda>j. j * k) [0..<Suc (n div k)]"
      using q by simp
    ultimately show ?thesis
      using Suc.IH True by (simp add: next_div)
  next
    case False
    have "(n + k - 1) div k = Suc (n div k)"
    proof -
      have rpos: "0 < n mod k" using False by simp
      have rlt: "n mod k < k" using assms by simp
      have "n + k - 1 = (n div k) * k + n mod k + k - 1" by simp
      also have "\<dots> = Suc (n div k) * k + (n mod k - 1)" using rpos by simp
      finally show ?thesis
        using div_block_inner [OF rpos rlt, of "n div k"] by simp
    qed
    then show ?thesis
      using Suc.IH False by (simp add: next_div)
  qed
qed

lemma upt_0_10: "[0..<10] = [0, 1, 2, 3, 4, 5, 6, 7, 8, 9]"
  by (simp add: upt_rec)

lemma multiples_of_100_below_938:
  "filter (\<lambda>i. i mod 100 = 0) [0..<938] = [0, 100, 200, 300, 400, 500, 600, 700, 800, 900]"
proof -
  have "filter (\<lambda>i. i mod 100 = 0) [0..<938] = map (\<lambda>j. j * 100) [0..<(938 + 100 - 1) div 100]"
    by (rule filter_multiples) simp
  also have "(938 + 100 - 1) div 100 = (10::nat)" by simp
  finally show ?thesis by (simp only: upt_0_10) simp
qed


lemma batches_nonempty:
  "dataset dl \<noteq> [] \<Longrightarrow> 0 < loader_batch_size dl \<Longrightarrow> batches dl \<noteq> []"
  by (simp add: batches_def batches_of_simps_if)

lemma blank_dataset_nonempty: "0 < n \<Longrightarrow> blank_dataset n \<noteq> []"
  by (simp add: blank_dataset_def)

subsection \<open>A network whose second layer overflows\<close>

















subsection \<open>A network with one more activation\<close>






subsection \<open>The claims about the training loop driver\<close>

text \<open>
  C1: \<^verbatim>\<open>test\<close> leaves the Model Parameters as they were, for every loader, loss
  function and state, whether it prints its line or raises: the modules of the network,
  with their parameters and gradient accumulators, and so the state dictionary, are the
  same after the call. Only the evaluation flag and the console change.
\<close>

theorem C1_test_keeps_parameters:
  "linear_relu_stack (model (snd (test dl lf w))) = linear_relu_stack (model w) \<and>
   model_parameters (model (snd (test dl lf w))) = model_parameters (model w) \<and>
   get_state_dict (model (snd (test dl lf w))) = get_state_dict (model w)"
  by (simp add: test_def Let_def eval_mode_def print_def get_state_dict_def model_parameters_def
      split: sum.splits prod.splits)

theorem C1_test_keeps_parameters_witness:
  "get_state_dict (model (snd (test \<lparr>dataset = blank_dataset 70, loader_batch_size = batch_size\<rparr>
                                 CrossEntropyLoss initial_world))) =
   get_state_dict (model initial_world)"
  using C1_test_keeps_parameters
    [of "\<lparr>dataset = blank_dataset 70, loader_batch_size = batch_size\<rparr>" CrossEntropyLoss
        initial_world]
  by blast

text \<open>
  C3: \<^verbatim>\<open>train\<close> is the pass the specification describes. It raises exactly when the
  specification's pass over the batches, taken in the loader's order, fails, and the model
  it leaves is the one that pass leaves: for each batch the prediction, the loss, the
  gradients, one optimizer step and the reset of the gradients. After a pass that
  completes on at least one batch every gradient accumulator holds zeros.
\<close>

theorem C3_train_in_order:
  "fst (train dl lf opt ag w) = fst (spec_train lf opt ag (batches dl) (train_mode (model w))) \<and>
   model (snd (train dl lf opt ag w)) = snd (spec_train lf opt ag (batches dl) (train_mode (model w))) \<and>
   (fst (train dl lf opt ag w) = None \<and> batches dl \<noteq> [] \<longrightarrow>
      grads_zero (model (snd (train dl lf opt ag w))))"
proof -
  let ?s = "spec_train lf opt ag (batches dl) (train_mode (model w))"
  have eq: "fst (train dl lf opt ag w) = fst ?s" "model (snd (train dl lf opt ag w)) = snd ?s"
    using train_loop_spec [of lf opt ag "length (dataset dl)" 0 "batches dl"
        "w\<lparr>model := train_mode (model w)\<rparr>"]
    by (simp_all add: train_def)
  have "grads_zero (snd ?s)" if "fst ?s = None" "batches dl \<noteq> []"
    using spec_train_grads_zero [of lf opt ag "batches dl" "train_mode (model w)" "snd ?s"] that
    by (cases ?s) simp
  then show ?thesis
    using eq by simp
qed

theorem C3_train_in_order_witness:
  "fst (train \<lparr>dataset = blank_dataset 130, loader_batch_size = batch_size\<rparr>
          CrossEntropyLoss optimizer zero_autograd initial_world) = None \<and>
   batches \<lparr>dataset = blank_dataset 130, loader_batch_size = batch_size\<rparr> \<noteq> [] \<and>
   model (snd (train \<lparr>dataset = blank_dataset 130, loader_batch_size = batch_size\<rparr>
                 CrossEntropyLoss optimizer zero_autograd initial_world)) =
     snd (spec_train CrossEntropyLoss optimizer zero_autograd
            (batches \<lparr>dataset = blank_dataset 130, loader_batch_size = batch_size\<rparr>)
            (train_mode (model initial_world))) \<and>
   grads_zero (model (snd (train \<lparr>dataset = blank_dataset 130, loader_batch_size = batch_size\<rparr>
                             CrossEntropyLoss optimizer zero_autograd initial_world)))"
proof -
  let ?dl = "\<lparr>dataset = blank_dataset 130, loader_batch_size = batch_size\<rparr>"
  have ok: "fst (train ?dl CrossEntropyLoss optimizer zero_autograd initial_world) = None"
    using train_ok [of zero_autograd ?dl initial_world optimizer]
    by (simp add: autograd_ok_zero_autograd data_ok_blank_dataset nn_ok_initial_world)
  have ne: "batches ?dl \<noteq> []"
    by (rule batches_nonempty) (simp_all add: blank_dataset_nonempty batch_size_def)
  show ?thesis
    using ok ne C3_train_in_order [of ?dl CrossEntropyLoss optimizer zero_autograd initial_world]
    by blast
qed

text \<open>
  C4: when the cell that runs the epochs completes, the model has gone through exactly
  \<open>n\<close> epochs, each a training pass followed by the test pass, and nothing else has
  touched it; the console holds, for the epochs 1 to \<open>n\<close> in order, the header, the
  progress lines of the training pass and the line of the test pass, and then \<^verbatim>\<open>Done!\<close>.
  In every one of the epochs the test pass has its metrics to report.
\<close>

theorem C4_run_epochs:
  assumes "fst (run_epochs n train_dl test_dl lf opt ag w) = None"
  shows "model (snd (run_epochs n train_dl test_dl lf opt ag w)) =
           (spec_epoch lf opt ag train_dl ^^ n) (model w) \<and>
         console (snd (run_epochs n train_dl test_dl lf opt ag w)) =
           console w @
           concat (map (\<lambda>t. epoch_lines lf opt ag train_dl test_dl t
                                ((spec_epoch lf opt ag train_dl ^^ t) (model w))) [0..<n]) @
           [Done] \<and>
         (\<forall>t<n. \<exists>test_loss correct.
            test_metrics test_dl
              (snd (spec_train lf opt ag (batches train_dl)
                      (train_mode ((spec_epoch lf opt ag train_dl ^^ t) (model w))))) lf
              = Inr (test_loss, correct))"
  using run_epochs_spec [OF assms] run_epochs_reports [OF assms] by blast

theorem C4_run_epochs_witness:
  "fst (run_epochs epochs \<lparr>dataset = blank_dataset 130, loader_batch_size = batch_size\<rparr>
          \<lparr>dataset = blank_dataset 70, loader_batch_size = batch_size\<rparr>
          CrossEntropyLoss optimizer zero_autograd initial_world) = None \<and>
   model (snd (run_epochs epochs \<lparr>dataset = blank_dataset 130, loader_batch_size = batch_size\<rparr>
          \<lparr>dataset = blank_dataset 70, loader_batch_size = batch_size\<rparr>
          CrossEntropyLoss optimizer zero_autograd initial_world)) =
     (spec_epoch CrossEntropyLoss optimizer zero_autograd
        \<lparr>dataset = blank_dataset 130, loader_batch_size = batch_size\<rparr> ^^ epochs)
       (model initial_world)"
proof -
  let ?tr = "\<lparr>dataset = blank_dataset 130, loader_batch_size = batch_size\<rparr>"
  let ?te = "\<lparr>dataset = blank_dataset 70, loader_batch_size = batch_size\<rparr>"
  have ok: "fst (run_epochs epochs ?tr ?te CrossEntropyLoss optimizer zero_autograd initial_world)
      = None"
    by (rule run_epochs_ok)
      (simp_all add: autograd_ok_zero_autograd data_ok_blank_dataset nn_ok_initial_world
        blank_dataset_nonempty batch_size_def)
  show ?thesis
    using ok C4_run_epochs [OF ok] by blast
qed

text \<open>
  C8: when \<^verbatim>\<open>train\<close> completes, what it has added to the console is one progress line
  for every batch whose number is a multiple of 100, in order, and nothing else. The line
  of the batch number \<open>i\<close> shows the loss of that batch, the count
  \<^verbatim>\<open>(i + 1) * len(X)\<close> and the size of the dataset.
\<close>

theorem C8_progress_every_100_batches:
  assumes "fst (train dl lf opt ag w) = None"
  shows "console (snd (train dl lf opt ag w)) =
     console w @
     map (progress_line lf opt ag (length (dataset dl)) (batches dl) (train_mode (model w)))
         (filter (\<lambda>i. i mod 100 = 0) [0..<length (batches dl)])"
  using assms by (rule train_console)

theorem C8_progress_every_100_batches_witness:
  "fst (train \<lparr>dataset = blank_dataset 60000, loader_batch_size = batch_size\<rparr>
          CrossEntropyLoss optimizer zero_autograd initial_world) = None \<and>
   console (snd (train \<lparr>dataset = blank_dataset 60000, loader_batch_size = batch_size\<rparr>
                   CrossEntropyLoss optimizer zero_autograd initial_world)) =
     map (progress_line CrossEntropyLoss optimizer zero_autograd 60000
            (batches \<lparr>dataset = blank_dataset 60000, loader_batch_size = batch_size\<rparr>)
            (train_mode (model initial_world)))
         [0, 100, 200, 300, 400, 500, 600, 700, 800, 900]"
proof -
  let ?dl = "\<lparr>dataset = blank_dataset 60000, loader_batch_size = batch_size\<rparr>"
  have ok: "fst (train ?dl CrossEntropyLoss optimizer zero_autograd initial_world) = None"
    using train_ok [of zero_autograd ?dl initial_world optimizer]
    by (simp add: autograd_ok_zero_autograd data_ok_blank_dataset nn_ok_initial_world)
  have len: "length (dataset ?dl) = 60000"
    by (simp add: blank_dataset_def)
  have c: "console initial_world = []"
    by (simp add: initial_world_def)
  show ?thesis
    using ok C8_progress_every_100_batches [OF ok]
    by (simp only: length_batches_60000 multiples_of_100_below_938 len c append_Nil simp_thms)
qed




text \<open>
  C10: the outcome of \<^verbatim>\<open>test\<close> is a function of the Model Parameters and the batches.
  Two states with the same parameters, whatever their gradient accumulators, mode flag and
  console, give the same pair of average loss and accuracy, raise the same exception if
  any, and print the same line.
\<close>

theorem C10_test_deterministic:
  assumes "model_parameters (model w) = model_parameters (model w')"
  shows "test_metrics dl (model w) lf = test_metrics dl (model w') lf \<and>
         fst (test dl lf w) = fst (test dl lf w') \<and>
         drop (length (console w)) (console (snd (test dl lf w))) =
         drop (length (console w')) (console (snd (test dl lf w')))"
  using test_metrics_cong [OF assms, of dl lf]
  by (simp add: test_def Let_def split: sum.splits prod.splits)

theorem C10_test_deterministic_witness:
  "model_parameters (model initial_world) =
     model_parameters (model (snd (test \<lparr>dataset = blank_dataset 70, loader_batch_size = batch_size\<rparr>
                                      CrossEntropyLoss initial_world))) \<and>
   test_metrics \<lparr>dataset = blank_dataset 70, loader_batch_size = batch_size\<rparr>
       (model initial_world) CrossEntropyLoss =
     test_metrics \<lparr>dataset = blank_dataset 70, loader_batch_size = batch_size\<rparr>
       (model (snd (test \<lparr>dataset = blank_dataset 70, loader_batch_size = batch_size\<rparr>
                      CrossEntropyLoss initial_world))) CrossEntropyLoss"
proof -
  let ?dl = "\<lparr>dataset = blank_dataset 70, loader_batch_size = batch_size\<rparr>"
  have p: "model_parameters (model initial_world) =
           model_parameters (model (snd (test ?dl CrossEntropyLoss initial_world)))"
    by simp
  show ?thesis
    using p C10_test_deterministic [OF p, of ?dl CrossEntropyLoss]
    by blast
qed

end
